theory Spec2Isabelle
  imports Complex_Main "HOL-Library.Sublist"
begin

section \<open>Regular expressions as Python's \<open>re\<close> module matches them\<close>

text \<open>
  \<open>berth_exec.py\<close> strips terminal escape codes with a compiled pattern,
  \<^verbatim>\<open>ANSI_ESCAPE_REGEX = re.compile(r'\x1b\[[0-9;?]*[a-zA-Z]|\x1b\][^\x07]*\x07')\<close>,
  and \<^verbatim>\<open>ANSI_ESCAPE_REGEX.sub('', text)\<close>. The pattern is embedded as a term of the
  fragment of the pattern language it uses, and matched the way a backtracking engine does:
  alternatives left to right, the star greedy. Text is a \<open>string\<close>, one \<open>char\<close> per
  character of the Python \<open>str\<close>; the pattern and the output filter look at ASCII
  characters only.
\<close>

datatype cls_item = One char | Range char char

datatype regex =
    Lit char
  | Cls bool "cls_item list"
  | Seq regex regex
  | Alt regex regex
  | Star regex

fun item_has :: "cls_item \<Rightarrow> char \<Rightarrow> bool" where
  "item_has (One a) c = (c = a)"
| "item_has (Range lo hi) c = ((of_char lo :: nat) \<le> of_char c \<and> (of_char c :: nat) \<le> of_char hi)"

definition cls_has :: "bool \<Rightarrow> cls_item list \<Rightarrow> char \<Rightarrow> bool" where
  \<comment> \<open>\<open>[...]\<close> when the flag is False, \<open>[^...]\<close> when it is True\<close>
  "cls_has negated items c = (list_ex (\<lambda>i. item_has i c) items \<noteq> negated)"

text \<open>
  \<open>rmatch r s\<close> lists what is left of \<open>s\<close> after each way \<open>r\<close> matches a prefix of it,
  in the order the engine tries them; the engine takes the first that lets the whole match
  succeed. An iteration of a star that consumes nothing ends the star.
\<close>

fun rmatch :: "regex \<Rightarrow> string \<Rightarrow> string list" where
  "rmatch (Lit a) s = (case s of [] \<Rightarrow> [] | c # cs \<Rightarrow> if c = a then [cs] else [])"
| "rmatch (Cls negated items) s =
     (case s of [] \<Rightarrow> [] | c # cs \<Rightarrow> if cls_has negated items c then [cs] else [])"
| "rmatch (Seq r1 r2) s = concat (map (rmatch r2) (rmatch r1 s))"
| "rmatch (Alt r1 r2) s = rmatch r1 s @ rmatch r2 s"
| "rmatch (Star r) s =
     concat (map (\<lambda>s'. if length s' < length s then rmatch (Star r) s' else []) (rmatch r s)) @ [s]"

text \<open>
  \<open>pattern.sub('', text)\<close>: scan left to right; at each position delete the first match
  that consumes something and go on after it, otherwise keep the character. (An empty match
  is replaced by the empty string and the engine then insists on a longer one at the same
  position.)
\<close>

function re_sub_empty :: "regex \<Rightarrow> string \<Rightarrow> string" where
  "re_sub_empty r [] = []"
| "re_sub_empty r (c # cs) =
     (case filter (\<lambda>rest. length rest \<le> length cs) (rmatch r (c # cs)) of
        [] \<Rightarrow> c # re_sub_empty r cs
      | rest # _ \<Rightarrow> re_sub_empty r rest)"
  by pat_completeness auto
termination
proof (relation "measure (\<lambda>(r, s). length s)")
  show "wf (measure (\<lambda>(r :: regex, s :: string). length s))" by simp
next
  fix r :: regex and c :: char and cs :: string
  show "((r, cs), (r, c # cs)) \<in> measure (\<lambda>(r, s). length s)" by simp
next
  fix r :: regex and c :: char and cs :: string and rest :: string and more :: "string list"
  assume "filter (\<lambda>rest. length rest \<le> length cs) (rmatch r (c # cs)) = rest # more"
  then have "rest \<in> set (filter (\<lambda>rest. length rest \<le> length cs) (rmatch r (c # cs)))"
    by simp
  then have "length rest \<le> length cs" by simp
  then show "((r, rest), (r, c # cs)) \<in> measure (\<lambda>(r, s). length s)" by simp
qed

section \<open>The exec client: cleaning terminal output\<close>

abbreviation ESC :: char where "ESC \<equiv> CHR 0x1B"
abbreviation BEL :: char where "BEL \<equiv> CHR 0x07"

definition ANSI_ESCAPE_REGEX :: regex where
  "ANSI_ESCAPE_REGEX =
     Alt (Seq (Lit ESC) (Seq (Lit CHR ''['')
            (Seq (Star (Cls False [Range CHR ''0'' CHR ''9'', One CHR '';'', One CHR ''?'']))
                 (Cls False [Range CHR ''a'' CHR ''z'', Range CHR ''A'' CHR ''Z'']))))
         (Seq (Lit ESC) (Seq (Lit CHR '']'')
            (Seq (Star (Cls True [One BEL])) (Lit BEL))))"

definition strip_ansi_codes :: "string \<Rightarrow> string" where
  "strip_ansi_codes text = re_sub_empty ANSI_ESCAPE_REGEX text"

text \<open>
  What the specification calls an escape sequence, as a property of a whole string: a CSI
  sequence is \<open>ESC [\<close>, parameter characters (digits, \<open>;\<close>, \<open>?\<close>), one ASCII letter;
  an OSC sequence is \<open>ESC ]\<close>, characters other than \<open>BEL\<close>, one \<open>BEL\<close>.
\<close>

definition csi_param :: "char \<Rightarrow> bool" where
  "csi_param c = ((48 \<le> (of_char c :: nat) \<and> (of_char c :: nat) \<le> 57) \<or> c = CHR '';'' \<or> c = CHR ''?'')"

definition ascii_letter :: "char \<Rightarrow> bool" where
  "ascii_letter c = ((97 \<le> (of_char c :: nat) \<and> (of_char c :: nat) \<le> 122) \<or>
                     (65 \<le> (of_char c :: nat) \<and> (of_char c :: nat) \<le> 90))"

definition csi_sequence :: "string \<Rightarrow> bool" where
  "csi_sequence e = (case e of
       a # b # r \<Rightarrow> a = ESC \<and> b = CHR ''['' \<and> r \<noteq> [] \<and>
                    list_all csi_param (butlast r) \<and> ascii_letter (last r)
     | _ \<Rightarrow> False)"

definition osc_sequence :: "string \<Rightarrow> bool" where
  "osc_sequence e = (case e of
       a # b # r \<Rightarrow> a = ESC \<and> b = CHR '']'' \<and> r \<noteq> [] \<and>
                    BEL \<notin> set (butlast r) \<and> last r = BEL
     | _ \<Rightarrow> False)"

definition escape_sequence :: "string \<Rightarrow> bool" where
  "escape_sequence e = (csi_sequence e \<or> osc_sequence e)"

text \<open>
  \<open>strips_to s out\<close>: \<open>out\<close> is \<open>s\<close> with escape sequences cut out and nothing else
  changed, and no character that begins an escape sequence is kept.
\<close>

inductive strips_to :: "string \<Rightarrow> string \<Rightarrow> bool" where
  strips_nil: "strips_to [] []"
| strips_drop: "escape_sequence e \<Longrightarrow> strips_to rest out \<Longrightarrow> strips_to (e @ rest) out"
| strips_keep: "(\<forall>e. prefix e (c # rest) \<longrightarrow> \<not> escape_sequence e) \<Longrightarrow> strips_to rest out
                 \<Longrightarrow> strips_to (c # rest) (c # out)"

text \<open>Direct scanners for the two alternatives of the pattern, used in the proofs only.\<close>

fun csi_tail :: "string \<Rightarrow> string option" where
  "csi_tail [] = None"
| "csi_tail (c # cs) = (if csi_param c then csi_tail cs else if ascii_letter c then Some cs else None)"

fun osc_tail :: "string \<Rightarrow> string option" where
  "osc_tail [] = None"
| "osc_tail (c # cs) = (if c = BEL then Some cs else osc_tail cs)"

definition escape_tail :: "string \<Rightarrow> string option" where
  "escape_tail s = (case s of
       a # b # r \<Rightarrow> if a = ESC \<and> b = CHR ''['' then csi_tail r
                    else if a = ESC \<and> b = CHR '']'' then osc_tail r else None
     | _ \<Rightarrow> None)"

section \<open>Python string helpers\<close>

abbreviation NL :: char where "NL \<equiv> CHR 0x0A"
abbreviation CR :: char where "CR \<equiv> CHR 0x0D"
abbreviation TAB :: char where "TAB \<equiv> CHR 0x09"
abbreviation BACKSLASH :: char where "BACKSLASH \<equiv> CHR 0x5C"
abbreviation SQUOTE :: char where "SQUOTE \<equiv> CHR 0x27"
abbreviation DQUOTE :: char where "DQUOTE \<equiv> CHR 0x22"

definition rstrip_nl :: "string \<Rightarrow> string" where
  \<comment> \<open>\<open>data.rstrip('\n')\<close>\<close>
  "rstrip_nl s = rev (dropWhile (\<lambda>c. c = NL) (rev s))"

fun join :: "string \<Rightarrow> string list \<Rightarrow> string" where
  \<comment> \<open>\<open>sep.join(xs)\<close>\<close>
  "join sep [] = []"
| "join sep [x] = x"
| "join sep (x # y # ys) = x @ sep @ join sep (y # ys)"

fun str_nat :: "nat \<Rightarrow> string" where
  "str_nat n = (if n < 10 then [char_of (48 + n)]
                else str_nat (n div 10) @ [char_of (48 + n mod 10)])"

declare str_nat.simps [simp del]

definition str_int :: "int \<Rightarrow> string" where
  \<comment> \<open>\<open>str(i)\<close>, as an f-string formats an integer\<close>
  "str_int i = (if i < 0 then CHR ''-'' # str_nat (nat (- i)) else str_nat (nat i))"

section \<open>Parameters, transport and results\<close>

text \<open>
  \<open>module.params\<close>. Both modules share the connection parameters; each adds its own.
\<close>

record params =
  berth_url :: string
  api_key :: string
  server_id :: string
  stack_name :: string
  validate_certs :: bool
  timeout :: int

record exec_params = params +
  service_name :: string
  container_name :: string
  command :: string

record stack_params = params +
  operation :: string
  options :: "string list"
  services :: "string list"

text \<open>
  What goes out on the transport, in order. Requests are recorded with their header lines
  (the URL, built with \<open>urlparse\<close>, is left out); a \<open>terminal_input\<close> is recorded with
  the text whose bytes it carries. Sending and closing are taken to succeed, and the pauses
  (\<open>time.sleep\<close>) are left out: they change no result.
\<close>

datatype wire_out =
    TerminalStart string string string nat nat
  | TerminalInput "string option" string

datatype action =
    HttpPost "string list"
  | WsConnect "string list"
  | WsSend wire_out
  | WsClose

text \<open>
  \<open>ws.recv()\<close> followed by \<open>json.loads\<close>, one per loop iteration: the receive times
  out, raises a \<open>WebSocketException\<close>, raises something else, returns an empty frame,
  returns a frame that does not parse to an object, or returns a message.
\<close>

datatype 'm recv =
    RecvTimeout
  | RecvWsError string
  | RecvRaised string
  | RecvEmpty
  | RecvMalformed string
  | RecvMsg 'm

text \<open>The keyword arguments of \<open>module.fail_json\<close>; it ends the process.\<close>

record failure =
  f_msg :: string
  f_details :: "string option"
  f_operation_id :: "string option"
  f_output :: "string list option"

definition fail_msg :: "string \<Rightarrow> failure" where
  "fail_msg m = \<lparr>f_msg = m, f_details = None, f_operation_id = None, f_output = None\<rparr>"

text \<open>
  A session is still in its receive loop (\<open>Running\<close>: the frames supplied so far have not
  ended it), has returned, or has ended in \<open>fail_json\<close>. The state is kept in each case.
\<close>

datatype ('s, 'a) run = Running 's | Returned 's 'a | Failed 's failure

datatype 'a reported = NoReport | Report 'a | FailReport failure

fun report_of :: "('s, 'a) run \<Rightarrow> 'a reported" where
  "report_of (Running st) = NoReport"
| "report_of (Returned st r) = Report r"
| "report_of (Failed st f) = FailReport f"

fun run_state :: "('s, 'a) run \<Rightarrow> 's" where
  "run_state (Running st) = st"
| "run_state (Returned st r) = st"
| "run_state (Failed st f) = st"

definition auth_header :: "string \<Rightarrow> string" where
  "auth_header key = ''Authorization: Bearer '' @ key"

definition timed_out :: "real \<Rightarrow> real \<Rightarrow> int \<Rightarrow> bool" where
  \<comment> \<open>\<open>time.time() - start_time > self.timeout\<close>\<close>
  "timed_out now start limit = (now - start > real_of_int limit)"

text \<open>
  The state both operators keep on \<open>self\<close> (\<open>output_lines\<close>, \<open>exit_code\<close>), with the
  record of what was sent; each operator adds its own fields.
\<close>

record session =
  output_lines :: "string list"
  exit_code :: "int option"
  actions :: "action list"

section \<open>The exec client (\<open>berth_exec.py\<close>)\<close>

text \<open>
  Inbound messages, by their \<open>type\<close>; a field is \<open>None\<close> when the key is absent, and
  has the type of the wire contract when present. \<open>MsgOther\<close> is any other \<open>type\<close>.
\<close>

datatype exec_msg =
    MsgSuccess "string option"
  | MsgTerminalOutput "string option"
  | MsgTerminalClose "int option"
  | MsgError "string option" "string option"
  | MsgOther

record exec_state = session +
  session_id :: "string option"
  command_sent :: bool
  session_ready :: bool

definition exec_init :: exec_state where
  "exec_init = \<lparr>output_lines = [], exit_code = None, actions = [],
                 session_id = None, command_sent = False, session_ready = False\<rparr>"

definition should_skip_output :: "exec_params \<Rightarrow> exec_state \<Rightarrow> string \<Rightarrow> bool" where
  "should_skip_output p st output =
     (if \<not> command_sent st then
        (if prefix ''/app #'' output then True else False)
      else
        (if sublist (command p) output \<or> prefix ''/app #'' output \<or> prefix ''exit'' output
         then True else False))"

text \<open>
  \<open>base64.b64decode(output_bytes).decode('utf-8', errors='replace')\<close> is library code:
  a parameter of the model, \<open>Inl\<close> the text of the exception \<open>b64decode\<close> raises on
  input it rejects, \<open>Inr\<close> the decoded text.
\<close>

type_synonym decoder = "string \<Rightarrow> string + string"

definition connect_failure :: "string \<Rightarrow> failure" where
  \<comment> \<open>the outer \<open>except Exception\<close> of \<open>execute_command\<close>\<close>
  "connect_failure e = fail_msg (''Failed to connect to terminal WebSocket: '' @ e)"

definition exec_failure :: "string \<Rightarrow> exec_state \<Rightarrow> failure" where
  "exec_failure m st =
     \<lparr>f_msg = m, f_details = None, f_operation_id = None, f_output = Some (output_lines st)\<rparr>"

definition ws_closed :: "'a session_scheme \<Rightarrow> 'a session_scheme" where
  "ws_closed st = st\<lparr>actions := actions st @ [WsClose]\<rparr>"

definition exec_message :: "decoder \<Rightarrow> exec_params \<Rightarrow> exec_state \<Rightarrow> exec_msg \<Rightarrow> (exec_state, unit) run" where
  "exec_message dec p st m = (case m of
      MsgSuccess sid \<Rightarrow>
        Running (st\<lparr>actions := actions st @
                        [WsSend (TerminalInput sid (command p @ [NL])),
                         WsSend (TerminalInput sid (''exit'' @ [NL]))],
                     session_id := sid, command_sent := True, session_ready := True\<rparr>)
    | MsgTerminalOutput out \<Rightarrow>
        if session_ready st then
          (case out of
             None \<Rightarrow> Running st
           | Some output_bytes \<Rightarrow>
               if output_bytes = [] then Running st
               else (case dec output_bytes of
                       Inl e \<Rightarrow> Failed st (connect_failure e)
                     | Inr decoded \<Rightarrow>
                         let cleaned = strip_ansi_codes decoded in
                         if cleaned \<noteq> [] \<and> \<not> should_skip_output p st cleaned
                         then Running (st\<lparr>output_lines := output_lines st @ [cleaned]\<rparr>)
                         else Running st))
        else Running st
    | MsgTerminalClose code \<Rightarrow>
        Returned (ws_closed (st\<lparr>exit_code := Some (case code of None \<Rightarrow> 0 | Some n \<Rightarrow> n)\<rparr>)) ()
    | MsgError err ctx \<Rightarrow>
        let error_msg = (case err of None \<Rightarrow> ''Unknown error'' | Some e \<Rightarrow> e);
            context = (case ctx of None \<Rightarrow> [] | Some c \<Rightarrow> c);
            full_error = (if context \<noteq> [] then error_msg @ '': '' @ context else error_msg)
        in Failed (ws_closed st) (exec_failure (''Terminal error: '' @ full_error) st)
    | MsgOther \<Rightarrow> Running st)"

text \<open>
  One pass of \<open>while True\<close>: the deadline check on the clock reading of this pass, then
  the receive.
\<close>

definition exec_iteration ::
  "decoder \<Rightarrow> exec_params \<Rightarrow> real \<Rightarrow> exec_state \<Rightarrow> real \<times> exec_msg recv \<Rightarrow> (exec_state, unit) run" where
  "exec_iteration dec p start st ev = (case ev of (now, r) \<Rightarrow>
     if timed_out now start (timeout p) then
       Failed (ws_closed st)
         (exec_failure (''Command execution timed out after '' @ str_int (timeout p) @ '' seconds'') st)
     else (case r of
         RecvTimeout \<Rightarrow> Running st
       | RecvWsError e \<Rightarrow> Failed (ws_closed st) (exec_failure (''WebSocket error: '' @ e) st)
       | RecvRaised e \<Rightarrow> Failed st (connect_failure e)
       | RecvEmpty \<Rightarrow> Running st
       | RecvMalformed e \<Rightarrow> Failed st (connect_failure e)
       | RecvMsg m \<Rightarrow> exec_message dec p st m))"

fun exec_loop ::
  "decoder \<Rightarrow> exec_params \<Rightarrow> real \<Rightarrow> exec_state \<Rightarrow> (real \<times> exec_msg recv) list \<Rightarrow> (exec_state, unit) run" where
  "exec_loop dec p start st [] = Running st"
| "exec_loop dec p start st (ev # evs) =
     (case exec_iteration dec p start st ev of
        Running st' \<Rightarrow> exec_loop dec p start st' evs
      | Returned st' u \<Rightarrow> Returned st' u
      | Failed st' f \<Rightarrow> Failed st' f)"

definition exec_connected :: "exec_params \<Rightarrow> exec_state" where
  \<comment> \<open>after \<open>create_connection\<close> and the \<open>terminal_start\<close> message\<close>
  "exec_connected p = exec_init\<lparr>actions :=
      [WsConnect [auth_header (api_key p)],
       WsSend (TerminalStart (stack_name p) (service_name p) (container_name p) 80 24)]\<rparr>"

definition execute_command ::
  "decoder \<Rightarrow> exec_params \<Rightarrow> string option \<Rightarrow> real \<Rightarrow> (real \<times> exec_msg recv) list \<Rightarrow> (exec_state, unit) run" where
  \<comment> \<open>\<open>conn\<close>: the text of the exception \<open>create_connection\<close> raises, if it does\<close>
  "execute_command dec p conn start frames = (case conn of
      Some e \<Rightarrow> Failed (exec_init\<lparr>actions := [WsConnect [auth_header (api_key p)]]\<rparr>) (connect_failure e)
    | None \<Rightarrow> exec_loop dec p start (exec_connected p) frames)"

record exec_result =
  r_changed :: bool
  r_exit_code :: int
  r_stdout :: string
  r_stderr :: string
  r_output :: "string list"
  r_failed :: bool

definition exec_result_of :: "exec_state \<Rightarrow> exec_result" where
  "exec_result_of st =
     \<lparr>r_changed = False,
      r_exit_code = (case exit_code st of Some c \<Rightarrow> c | None \<Rightarrow> 0),
      r_stdout = concat (output_lines st),
      r_stderr = [],
      r_output = output_lines st,
      r_failed = (case exit_code st of Some c \<Rightarrow> c \<noteq> 0 | None \<Rightarrow> False)\<rparr>"

definition exec_execute ::
  "decoder \<Rightarrow> exec_params \<Rightarrow> string option \<Rightarrow> real \<Rightarrow> (real \<times> exec_msg recv) list \<Rightarrow> (exec_state, exec_result) run" where
  "exec_execute dec p conn start frames =
     (case execute_command dec p conn start frames of
        Running st \<Rightarrow> Running st
      | Returned st u \<Rightarrow> Returned st (exec_result_of st)
      | Failed st f \<Rightarrow> Failed st f)"

section \<open>The stack client (\<open>berth_stack.py\<close>)\<close>

datatype stack_msg =
    MsgStdout "string option"
  | MsgStderr "string option"
  | MsgProgress "string option" "string option"
  | MsgComplete "bool option" "int option"
  | MsgOpError "string option"
  | MsgUnknown

text \<open>
  What \<open>urlopen\<close> and the parsing of its body come to: a 2xx response whose body is an
  object (with its \<open>operationId\<close>, if it has one), an \<open>HTTPError\<close> (status, body if there
  is one), a \<open>URLError\<close>, or any other exception, a body that does not parse among them.
\<close>

datatype http_reply =
    HttpOk "string option"
  | HttpError int "string option"
  | UrlError string
  | HttpRaised string

record stack_state = session +
  success :: "bool option"
  operation_id :: "string option"

definition stack_init :: stack_state where
  "stack_init = \<lparr>output_lines = [], exit_code = None, actions = [],
                  success = None, operation_id = None\<rparr>"

definition start_operation :: "stack_params \<Rightarrow> stack_state \<Rightarrow> http_reply \<Rightarrow> (stack_state, string) run" where
  "start_operation p st reply =
     (let st1 = st\<lparr>actions := actions st @
                  [HttpPost [auth_header (api_key p), ''Content-Type: application/json'']]\<rparr>
      in case reply of
           HttpOk oid \<Rightarrow>
             (let st2 = st1\<lparr>operation_id := oid\<rparr>
              in case oid of
                   None \<Rightarrow> Failed st2 (fail_msg ''No operation ID returned from server'')
                 | Some i \<Rightarrow>
                     if i = [] then Failed st2 (fail_msg ''No operation ID returned from server'')
                     else Returned st2 i)
         | HttpError code body \<Rightarrow>
             Failed st1 \<lparr>f_msg = ''Failed to start operation: HTTP '' @ str_int code,
                         f_details = Some (case body of None \<Rightarrow> [] | Some b \<Rightarrow> b),
                         f_operation_id = None, f_output = None\<rparr>
         | UrlError e \<Rightarrow> Failed st1 (fail_msg (''Failed to connect to Berth server: '' @ e))
         | HttpRaised e \<Rightarrow> Failed st1 (fail_msg (''Unexpected error starting operation: '' @ e)))"

definition stream_failure :: "string \<Rightarrow> stack_state \<Rightarrow> failure" where
  "stream_failure m st =
     \<lparr>f_msg = m, f_details = None, f_operation_id = operation_id st,
      f_output = Some (output_lines st)\<rparr>"

definition ws_connect_failure :: "string \<Rightarrow> stack_state \<Rightarrow> failure" where
  \<comment> \<open>the outer \<open>except Exception\<close> of \<open>stream_operation\<close>\<close>
  "ws_connect_failure e st =
     \<lparr>f_msg = ''Failed to connect to WebSocket: '' @ e, f_details = None,
      f_operation_id = operation_id st, f_output = None\<rparr>"

definition append_data :: "stack_state \<Rightarrow> string option \<Rightarrow> (stack_state, unit) run" where
  \<comment> \<open>the \<open>stdout\<close>/\<open>stderr\<close> branch\<close>
  "append_data st d = (case d of
      None \<Rightarrow> Running st
    | Some data \<Rightarrow>
        if data \<noteq> [] then Running (st\<lparr>output_lines := output_lines st @ [rstrip_nl data]\<rparr>)
        else Running st)"

definition stack_message :: "stack_state \<Rightarrow> stack_msg \<Rightarrow> (stack_state, unit) run" where
  "stack_message st m = (case m of
      MsgStdout d \<Rightarrow> append_data st d
    | MsgStderr d \<Rightarrow> append_data st d
    | MsgProgress d ts \<Rightarrow>
        (case d of
           None \<Rightarrow> Running st
         | Some data \<Rightarrow>
             if data \<noteq> [] then
               (let timestamp = (case ts of None \<Rightarrow> [] | Some t \<Rightarrow> t)
                in Running (st\<lparr>output_lines := output_lines st @ [''['' @ timestamp @ ''] '' @ data]\<rparr>))
             else Running st)
    | MsgComplete s code \<Rightarrow>
        (let ok = (case s of None \<Rightarrow> False | Some b \<Rightarrow> b)
         in Returned (ws_closed (st\<lparr>exit_code := Some (case code of
                                                           None \<Rightarrow> (if \<not> ok then 1 else 0)
                                                         | Some c \<Rightarrow> c),
                                     success := Some ok\<rparr>)) ())
    | MsgOpError d \<Rightarrow>
        (let error_msg = (case d of None \<Rightarrow> ''Unknown error'' | Some e \<Rightarrow> e)
         in Failed (ws_closed st) (stream_failure (''Operation error: '' @ error_msg) st))
    | MsgUnknown \<Rightarrow> Running st)"

definition stream_iteration ::
  "stack_params \<Rightarrow> real \<Rightarrow> stack_state \<Rightarrow> real \<times> stack_msg recv \<Rightarrow> (stack_state, unit) run" where
  "stream_iteration p start st ev = (case ev of (now, r) \<Rightarrow>
     if timed_out now start (timeout p) then
       Failed (ws_closed st)
         (stream_failure (''Operation timed out after '' @ str_int (timeout p) @ '' seconds'') st)
     else (case r of
         RecvTimeout \<Rightarrow> Running st
       | RecvWsError e \<Rightarrow> Failed (ws_closed st) (stream_failure (''WebSocket error: '' @ e) st)
       | RecvRaised e \<Rightarrow> Failed st (ws_connect_failure e st)
       | RecvEmpty \<Rightarrow> Running st
       | RecvMalformed e \<Rightarrow> Failed st (ws_connect_failure e st)
       | RecvMsg m \<Rightarrow> stack_message st m))"

fun stream_loop ::
  "stack_params \<Rightarrow> real \<Rightarrow> stack_state \<Rightarrow> (real \<times> stack_msg recv) list \<Rightarrow> (stack_state, unit) run" where
  "stream_loop p start st [] = Running st"
| "stream_loop p start st (ev # evs) =
     (case stream_iteration p start st ev of
        Running st' \<Rightarrow> stream_loop p start st' evs
      | Returned st' u \<Rightarrow> Returned st' u
      | Failed st' f \<Rightarrow> Failed st' f)"

definition stream_connected :: "stack_params \<Rightarrow> stack_state \<Rightarrow> stack_state" where
  "stream_connected p st = st\<lparr>actions := actions st @ [WsConnect [auth_header (api_key p)]]\<rparr>"

definition stream_operation ::
  "stack_params \<Rightarrow> stack_state \<Rightarrow> string option \<Rightarrow> real \<Rightarrow> (real \<times> stack_msg recv) list
     \<Rightarrow> (stack_state, unit) run" where
  "stream_operation p st conn start frames = (case conn of
      Some e \<Rightarrow> Failed (stream_connected p st) (ws_connect_failure e st)
    | None \<Rightarrow> stream_loop p start (stream_connected p st) frames)"

record stack_result =
  sr_changed :: bool
  sr_operation_id :: "string option"
  sr_message :: string
  sr_exit_code :: "int option"
  sr_output :: "string list"
  sr_failed :: bool

definition truthy :: "bool option \<Rightarrow> bool" where
  \<comment> \<open>\<open>bool(self.success)\<close>; \<open>self.success\<close> starts as \<open>None\<close>\<close>
  "truthy b = (case b of None \<Rightarrow> False | Some v \<Rightarrow> v)"

definition stack_result_of :: "stack_params \<Rightarrow> stack_state \<Rightarrow> stack_result" where
  "stack_result_of p st =
     (let services_str = (if services p \<noteq> [] then '' on services '' @ join '', '' (services p) else []);
          message = (if \<not> truthy (success st)
                     then ''Failed '' @ operation p @ '' operation on stack '' @ stack_name p @ services_str
                     else ''Successfully completed '' @ operation p @ '' operation on stack ''
                            @ stack_name p @ services_str)
      in \<lparr>sr_changed = True,
          sr_operation_id = operation_id st,
          sr_message = message,
          sr_exit_code = exit_code st,
          sr_output = output_lines st,
          sr_failed = (\<not> truthy (success st))\<rparr>)"

definition stack_execute ::
  "stack_params \<Rightarrow> http_reply \<Rightarrow> string option \<Rightarrow> real \<Rightarrow> (real \<times> stack_msg recv) list
     \<Rightarrow> (stack_state, stack_result) run" where
  "stack_execute p reply conn start frames =
     (case start_operation p stack_init reply of
        Running st \<Rightarrow> Running st
      | Failed st f \<Rightarrow> Failed st f
      | Returned st oid \<Rightarrow>
          (case stream_operation p st conn start frames of
             Running st' \<Rightarrow> Running st'
           | Returned st' u \<Rightarrow> Returned st' (stack_result_of p st')
           | Failed st' f \<Rightarrow> Failed st' f))"

section \<open>The request headers under \<open>urlopen\<close>\<close>

text \<open>
  \<open>start_operation\<close> puts the API key into the \<open>Authorization\<close> header and hands the
  request to \<open>urlopen\<close>. The standard library (\<open>http.client\<close>, \<open>putheader\<close>) checks every
  header value before anything is sent: a value with a line feed that is not followed by a
  space or a tab, or a carriage return that is not followed by a space, a tab or a line feed,
  is refused with \<^verbatim>\<open>ValueError('Invalid header value %r' % value)\<close>, the value being
  the header's bytes. \<open>bytes_repr\<close> is Python's \<open>repr\<close> of a bytes object. The other
  header is the constant \<open>application/json\<close>. \<open>urlopen p served\<close> is this check on the
  request of \<open>p\<close>, followed by \<open>served\<close>, what the exchange with the server comes to.
\<close>

fun is_illegal_header_value :: "string \<Rightarrow> bool" where
  "is_illegal_header_value [] = False"
| "is_illegal_header_value (c # cs) =
     ((c = NL \<and> (case cs of [] \<Rightarrow> True | d # _ \<Rightarrow> d \<noteq> CHR '' '' \<and> d \<noteq> TAB)) \<or>
      (c = CR \<and> (case cs of [] \<Rightarrow> True | d # _ \<Rightarrow> d \<noteq> CHR '' '' \<and> d \<noteq> TAB \<and> d \<noteq> NL)) \<or>
      is_illegal_header_value cs)"

definition hex_digit :: "nat \<Rightarrow> char" where
  "hex_digit n = ''0123456789abcdef'' ! n"

definition bytes_repr_char :: "char \<Rightarrow> char \<Rightarrow> string" where
  "bytes_repr_char quote c =
     (if c = quote \<or> c = BACKSLASH then [BACKSLASH, c]
      else if c = TAB then [BACKSLASH, CHR ''t'']
      else if c = NL then [BACKSLASH, CHR ''n'']
      else if c = CR then [BACKSLASH, CHR ''r'']
      else if (of_char c :: nat) < 32 \<or> 127 \<le> (of_char c :: nat)
        then [BACKSLASH, CHR ''x'', hex_digit (of_char c div 16), hex_digit (of_char c mod 16)]
      else [c])"

definition bytes_repr :: "string \<Rightarrow> string" where
  "bytes_repr v =
     (let quote = (if SQUOTE \<in> set v \<and> DQUOTE \<notin> set v then DQUOTE else SQUOTE)
      in CHR ''b'' # quote # concat (map (bytes_repr_char quote) v) @ [quote])"

definition urlopen :: "stack_params \<Rightarrow> http_reply \<Rightarrow> http_reply" where
  "urlopen p served =
     (let authorization = ''Bearer '' @ api_key p
      in if is_illegal_header_value authorization
         then HttpRaised (''Invalid header value '' @ bytes_repr authorization)
         else served)"

definition stack_run ::
  "stack_params \<Rightarrow> http_reply \<Rightarrow> string option \<Rightarrow> real \<Rightarrow> (real \<times> stack_msg recv) list
     \<Rightarrow> (stack_state, stack_result) run" where
  "stack_run p served conn start frames = stack_execute p (urlopen p served) conn start frames"

section \<open>Results up to what was sent\<close>

text \<open>
  \<open>forget_sent\<close> drops the record of what went out on the transport, which is where the
  API key is carried; it is used to compare two runs that differ in the key only.
\<close>

definition forget_sent :: "'a session_scheme \<Rightarrow> 'a session_scheme" where
  "forget_sent st = st\<lparr>actions := []\<rparr>"

fun forget_run :: "('a session_scheme, 'b) run \<Rightarrow> ('a session_scheme, 'b) run" where
  "forget_run (Running st) = Running (forget_sent st)"
| "forget_run (Returned st r) = Returned (forget_sent st) r"
| "forget_run (Failed st f) = Failed (forget_sent st) f"

section \<open>Sample sessions\<close>

text \<open>
  Concrete sessions on which the theorems below are exercised: \<open>ls\<close> run in a container
  (the peer sends the prompt, the echoed command and one line of output, base64-encoded as on
  the wire), and a \<open>restart\<close> of a stack.
\<close>

definition sample_params :: exec_params where
  "sample_params = \<lparr>berth_url = ''https://berth.example.com'', api_key = ''s3cret'',
      server_id = ''1'', stack_name = ''web'', validate_certs = True, timeout = 30,
      service_name = ''app'', container_name = [], command = ''ls''\<rparr>"

definition sample_decoder :: decoder where
  "sample_decoder b =
     (if b = ''L2FwcCAjIA=='' then Inr ''/app # ''
      else if b = ''bHMNCg=='' then Inr (''ls'' @ [CR, NL])
      else if b = ''dG90YWwgOA0K'' then Inr (''total 8'' @ [CR, NL])
      else Inl ''Incorrect padding'')"

definition sample_frames :: "(real \<times> exec_msg recv) list" where
  "sample_frames =
     [(0.1, RecvMsg (MsgSuccess (Some ''sess-1''))),
      (0.5, RecvMsg (MsgTerminalOutput (Some ''L2FwcCAjIA==''))),
      (0.6, RecvMsg (MsgTerminalOutput (Some ''bHMNCg==''))),
      (0.7, RecvMsg (MsgTerminalOutput (Some ''dG90YWwgOA0K'')))]"

definition sample_state :: exec_state where
  "sample_state = \<lparr>output_lines = [''total 8'' @ [CR, NL]], exit_code = None,
      actions = [WsConnect [''Authorization: Bearer s3cret''],
                 WsSend (TerminalStart ''web'' ''app'' [] 80 24),
                 WsSend (TerminalInput (Some ''sess-1'') (''ls'' @ [NL])),
                 WsSend (TerminalInput (Some ''sess-1'') (''exit'' @ [NL]))],
      session_id = Some ''sess-1'', command_sent = True, session_ready = True\<rparr>"

definition sample_stack_params :: stack_params where
  "sample_stack_params = \<lparr>berth_url = ''https://berth.example.com'', api_key = ''s3cret'',
      server_id = ''1'', stack_name = ''web'', validate_certs = True, timeout = 600,
      operation = ''restart'', options = [], services = [''app'', ''db'']\<rparr>"

definition sample_stack_frames :: "(real \<times> stack_msg recv) list" where
  "sample_stack_frames =
     [(1, RecvMsg (MsgStdout (Some (''a'' @ [NL])))),
      (2, RecvTimeout),
      (3, RecvMsg (MsgProgress (Some ''b'') (Some ''12:00'')))]"

definition sample_stack_state :: stack_state where
  "sample_stack_state = \<lparr>output_lines = [''a'', ''[12:00] b''], exit_code = None,
      actions = [HttpPost [''Authorization: Bearer s3cret'', ''Content-Type: application/json''],
                 WsConnect [''Authorization: Bearer s3cret'']],
      success = None, operation_id = Some ''op-7''\<rparr>"

definition sample_started :: stack_state where
  "sample_started = \<lparr>output_lines = [], exit_code = None,
      actions = [HttpPost [''Authorization: Bearer s3cret'', ''Content-Type: application/json'']],
      success = None, operation_id = Some ''op-7''\<rparr>"

section \<open>Stripping escape sequences\<close>

lemma cls_csi_param:
  "cls_has False [Range CHR ''0'' CHR ''9'', One CHR '';'', One CHR ''?''] c = csi_param c"
  by (auto simp add: cls_has_def csi_param_def)

lemma cls_ascii_letter:
  "cls_has False [Range CHR ''a'' CHR ''z'', Range CHR ''A'' CHR ''Z''] c = ascii_letter c"
  by (auto simp add: cls_has_def ascii_letter_def)

lemma cls_not_bel: "cls_has True [One BEL] c = (c \<noteq> BEL)"
  by (auto simp add: cls_has_def)

lemma param_not_letter: "csi_param c \<Longrightarrow> \<not> ascii_letter c"
  by (auto simp add: csi_param_def ascii_letter_def)

lemma star_cls_Nil: "rmatch (Star (Cls n items)) [] = [[]]"
  by simp

lemma star_cls_Cons:
  "rmatch (Star (Cls n items)) (c # cs) =
     (if cls_has n items c then rmatch (Star (Cls n items)) cs @ [c # cs] else [c # cs])"
  by simp

declare rmatch.simps(5) [simp del]

lemma rmatch_csi_body:
  "rmatch (Seq (Star (Cls False [Range CHR ''0'' CHR ''9'', One CHR '';'', One CHR ''?'']))
               (Cls False [Range CHR ''a'' CHR ''z'', Range CHR ''A'' CHR ''Z''])) s =
   (case csi_tail s of None \<Rightarrow> [] | Some r \<Rightarrow> [r])"
proof (induction s)
  case Nil
  show ?case by (simp add: star_cls_Nil)
next
  case (Cons c cs)
  then show ?case
    by (simp add: star_cls_Cons cls_csi_param cls_ascii_letter param_not_letter)
qed

lemma rmatch_osc_body:
  "rmatch (Seq (Star (Cls True [One BEL])) (Lit BEL)) s =
   (case osc_tail s of None \<Rightarrow> [] | Some r \<Rightarrow> [r])"
proof (induction s)
  case Nil
  show ?case by (simp add: star_cls_Nil)
next
  case (Cons c cs)
  then show ?case
    by (simp add: star_cls_Cons cls_not_bel)
qed

lemma rmatch_ANSI:
  "rmatch ANSI_ESCAPE_REGEX s = (case escape_tail s of None \<Rightarrow> [] | Some r \<Rightarrow> [r])"
proof -
  have seq_lit: "rmatch (Seq (Lit a) r) s =
      (case s of [] \<Rightarrow> [] | c # cs \<Rightarrow> if c = a then rmatch r cs else [])" for a r s
    by (simp split: list.splits)
  show ?thesis
    unfolding ANSI_ESCAPE_REGEX_def rmatch.simps(4) seq_lit rmatch_csi_body rmatch_osc_body
    by (simp add: escape_tail_def split: list.splits option.splits)
qed

lemma csi_tail_length: "csi_tail s = Some r \<Longrightarrow> length r < length s"
  by (induction s) (auto split: if_splits)

lemma osc_tail_length: "osc_tail s = Some r \<Longrightarrow> length r < length s"
  by (induction s) (auto split: if_splits)

lemma escape_tail_length: "escape_tail s = Some r \<Longrightarrow> length r < length s"
  by (auto simp add: escape_tail_def split: list.splits if_splits
           dest: csi_tail_length osc_tail_length)

lemma strip_Nil: "strip_ansi_codes [] = []"
  by (simp add: strip_ansi_codes_def)

lemma strip_Cons:
  "strip_ansi_codes (c # cs) =
     (case escape_tail (c # cs) of None \<Rightarrow> c # strip_ansi_codes cs | Some r \<Rightarrow> strip_ansi_codes r)"
proof (cases "escape_tail (c # cs)")
  case None
  then show ?thesis by (simp add: strip_ansi_codes_def rmatch_ANSI)
next
  case (Some r)
  then have "length r \<le> length cs" using escape_tail_length [OF Some] by simp
  with Some show ?thesis by (simp add: strip_ansi_codes_def rmatch_ANSI)
qed

lemma csi_tail_complete:
  "list_all csi_param ps \<Longrightarrow> ascii_letter l \<Longrightarrow> csi_tail (ps @ l # r) = Some r"
  by (induction ps) (auto simp add: param_not_letter)

lemma csi_tail_sound:
  "csi_tail s = Some r \<Longrightarrow> \<exists>ps l. s = ps @ l # r \<and> list_all csi_param ps \<and> ascii_letter l"
proof (induction s)
  case Nil
  then show ?case by simp
next
  case (Cons c cs)
  show ?case
  proof (cases "csi_param c")
    case True
    with Cons.prems have "csi_tail cs = Some r" by simp
    from Cons.IH [OF this] obtain ps l
      where "cs = ps @ l # r" "list_all csi_param ps" "ascii_letter l" by blast
    with True have "c # cs = (c # ps) @ l # r \<and> list_all csi_param (c # ps) \<and> ascii_letter l"
      by simp
    then show ?thesis by blast
  next
    case False
    with Cons.prems have "ascii_letter c" "cs = r" by (auto split: if_splits)
    then have "c # cs = [] @ c # r \<and> list_all csi_param [] \<and> ascii_letter c" by simp
    then show ?thesis by blast
  qed
qed

lemma osc_tail_complete: "BEL \<notin> set body \<Longrightarrow> osc_tail (body @ BEL # r) = Some r"
  by (induction body) auto

lemma osc_tail_sound:
  "osc_tail s = Some r \<Longrightarrow> \<exists>body. s = body @ BEL # r \<and> BEL \<notin> set body"
proof (induction s)
  case Nil
  then show ?case by simp
next
  case (Cons c cs)
  show ?case
  proof (cases "c = BEL")
    case True
    with Cons.prems have "c # cs = [] @ BEL # r \<and> BEL \<notin> set []" by simp
    then show ?thesis by blast
  next
    case False
    with Cons.prems have "osc_tail cs = Some r" by simp
    from Cons.IH [OF this] obtain body where "cs = body @ BEL # r" "BEL \<notin> set body" by blast
    with False have "c # cs = (c # body) @ BEL # r \<and> BEL \<notin> set (c # body)" by simp
    then show ?thesis by blast
  qed
qed

lemma csi_sequence_iff:
  "csi_sequence e \<longleftrightarrow> (\<exists>ps l. e = ESC # CHR ''['' # ps @ [l] \<and> list_all csi_param ps \<and> ascii_letter l)"
proof
  assume "csi_sequence e"
  then obtain r where r: "e = ESC # CHR ''['' # r" "r \<noteq> []"
      "list_all csi_param (butlast r)" "ascii_letter (last r)"
    by (auto simp add: csi_sequence_def split: list.splits)
  then have "e = ESC # CHR ''['' # butlast r @ [last r]" by simp
  with r show "\<exists>ps l. e = ESC # CHR ''['' # ps @ [l] \<and> list_all csi_param ps \<and> ascii_letter l"
    by blast
next
  assume "\<exists>ps l. e = ESC # CHR ''['' # ps @ [l] \<and> list_all csi_param ps \<and> ascii_letter l"
  then show "csi_sequence e" by (auto simp add: csi_sequence_def)
qed

lemma osc_sequence_iff:
  "osc_sequence e \<longleftrightarrow> (\<exists>body. e = ESC # CHR '']'' # body @ [BEL] \<and> BEL \<notin> set body)"
proof
  assume "osc_sequence e"
  then obtain r where r: "e = ESC # CHR '']'' # r" "r \<noteq> []"
      "BEL \<notin> set (butlast r)" "last r = BEL"
    by (auto simp add: osc_sequence_def split: list.splits)
  then have "e = ESC # CHR '']'' # butlast r @ [BEL]"
    using append_butlast_last_id [of r] by simp
  with r show "\<exists>body. e = ESC # CHR '']'' # body @ [BEL] \<and> BEL \<notin> set body"
    by blast
next
  assume "\<exists>body. e = ESC # CHR '']'' # body @ [BEL] \<and> BEL \<notin> set body"
  then show "osc_sequence e" by (auto simp add: osc_sequence_def)
qed

text \<open>A match of the pattern at the head of s is an escape sequence, and the only one there.\<close>

lemma escape_tail_sound:
  assumes "escape_tail s = Some r"
  shows "\<exists>e. escape_sequence e \<and> s = e @ r"
proof -
  from assms obtain a b t where s: "s = a # b # t"
    by (auto simp add: escape_tail_def split: list.splits)
  from assms s consider
      (csi) "a = ESC" "b = CHR ''[''" "csi_tail t = Some r"
    | (osc) "a = ESC" "b = CHR '']''" "osc_tail t = Some r"
    by (auto simp add: escape_tail_def split: if_splits)
  then show ?thesis
  proof cases
    case csi
    from csi_tail_sound [OF csi(3)] obtain ps l
      where t: "t = ps @ l # r" "list_all csi_param ps" "ascii_letter l" by blast
    then have "csi_sequence (ESC # CHR ''['' # ps @ [l])"
      unfolding csi_sequence_iff by blast
    moreover have "s = (ESC # CHR ''['' # ps @ [l]) @ r" using s csi t by simp
    ultimately show ?thesis unfolding escape_sequence_def by blast
  next
    case osc
    from osc_tail_sound [OF osc(3)] obtain body
      where t: "t = body @ BEL # r" "BEL \<notin> set body" by blast
    then have "osc_sequence (ESC # CHR '']'' # body @ [BEL])"
      unfolding osc_sequence_iff by blast
    moreover have "s = (ESC # CHR '']'' # body @ [BEL]) @ r" using s osc t by simp
    ultimately show ?thesis unfolding escape_sequence_def by blast
  qed
qed

lemma escape_tail_complete:
  assumes "escape_sequence e"
  shows "escape_tail (e @ r) = Some r"
  using assms unfolding escape_sequence_def
proof
  assume "csi_sequence e"
  then obtain ps l where "e = ESC # CHR ''['' # ps @ [l]" "list_all csi_param ps" "ascii_letter l"
    unfolding csi_sequence_iff by blast
  then show ?thesis by (simp add: escape_tail_def csi_tail_complete)
next
  assume "osc_sequence e"
  then obtain body where "e = ESC # CHR '']'' # body @ [BEL]" "BEL \<notin> set body"
    unfolding osc_sequence_iff by blast
  then show ?thesis by (simp add: escape_tail_def osc_tail_complete)
qed

lemma escape_tail_None_iff:
  "escape_tail s = None \<longleftrightarrow> (\<forall>e. prefix e s \<longrightarrow> \<not> escape_sequence e)"
proof
  assume none: "escape_tail s = None"
  show "\<forall>e. prefix e s \<longrightarrow> \<not> escape_sequence e"
  proof (intro allI impI notI)
    fix e assume "prefix e s" "escape_sequence e"
    then obtain r where "s = e @ r" by (auto simp add: prefix_def)
    with escape_tail_complete [OF \<open>escape_sequence e\<close>, of r] none show False by simp
  qed
next
  assume no: "\<forall>e. prefix e s \<longrightarrow> \<not> escape_sequence e"
  show "escape_tail s = None"
  proof (rule ccontr)
    assume "escape_tail s \<noteq> None"
    then obtain r where "escape_tail s = Some r" by blast
    from escape_tail_sound [OF this] obtain e where "escape_sequence e" "s = e @ r" by blast
    with no show False by (auto simp add: prefix_def)
  qed
qed

lemma strips_to_strip: "strips_to s (strip_ansi_codes s)"
proof (induction "length s" arbitrary: s rule: less_induct)
  case less
  show ?case
  proof (cases s)
    case Nil
    then show ?thesis by (simp add: strip_Nil strips_nil)
  next
    case (Cons c cs)
    show ?thesis
    proof (cases "escape_tail (c # cs)")
      case None
      then have "\<forall>e. prefix e (c # cs) \<longrightarrow> \<not> escape_sequence e"
        by (simp add: escape_tail_None_iff)
      moreover have "strips_to cs (strip_ansi_codes cs)" using less Cons by simp
      ultimately have "strips_to (c # cs) (c # strip_ansi_codes cs)" by (rule strips_keep)
      with None Cons show ?thesis by (simp add: strip_Cons)
    next
      case (Some r)
      from escape_tail_sound [OF Some] obtain e where e: "escape_sequence e" "c # cs = e @ r"
        by blast
      have "length r < length s" using escape_tail_length [OF Some] Cons by simp
      then have "strips_to r (strip_ansi_codes r)" by (rule less)
      with e(1) have "strips_to (e @ r) (strip_ansi_codes r)" by (rule strips_drop)
      moreover have "strip_ansi_codes (c # cs) = strip_ansi_codes r"
        using Some by (simp add: strip_Cons)
      ultimately show ?thesis using Cons e(2) by simp
    qed
  qed
qed

lemma strips_to_unique: "strips_to s out \<Longrightarrow> out = strip_ansi_codes s"
proof (induction rule: strips_to.induct)
  case strips_nil
  show ?case by (simp add: strip_Nil)
next
  case (strips_drop e rest out)
  have tail: "escape_tail (e @ rest) = Some rest" by (rule escape_tail_complete) fact
  then have "e @ rest \<noteq> []" by (auto simp add: escape_tail_def)
  then obtain c cs where "e @ rest = c # cs" by (cases "e @ rest") auto
  with tail strips_drop.IH show ?case by (simp add: strip_Cons)
next
  case (strips_keep c rest out)
  then have "escape_tail (c # rest) = None" by (simp add: escape_tail_None_iff)
  with strips_keep.IH show ?case by (simp add: strip_Cons)
qed

lemma strip_clean:
  "(\<forall>e. sublist e s \<longrightarrow> \<not> escape_sequence e) \<Longrightarrow> strip_ansi_codes s = s"
proof (induction s)
  case Nil
  show ?case by (simp add: strip_Nil)
next
  case (Cons c cs)
  have "\<forall>e. prefix e (c # cs) \<longrightarrow> \<not> escape_sequence e"
    using Cons.prems by auto
  then have none: "escape_tail (c # cs) = None" by (simp add: escape_tail_None_iff)
  have "\<forall>e. sublist e cs \<longrightarrow> \<not> escape_sequence e"
    using Cons.prems by (auto simp add: sublist_Cons_right)
  then have "strip_ansi_codes cs = cs" by (rule Cons.IH)
  with none show ?case by (simp add: strip_Cons)
qed

text \<open>
  Claim C1. For every decoded text \<open>s\<close>, \<open>strip_ansi_codes s\<close> is \<open>s\<close> with exactly its
  escape sequences removed (CSI: \<open>ESC [\<close>, parameters, a letter; OSC: \<open>ESC ]\<close>, anything
  but \<open>BEL\<close>, \<open>BEL\<close>) and every other character left in place: it is the one string
  obtained by cutting escape sequences out of \<open>s\<close> while keeping no character at which an
  escape sequence begins. When no part of \<open>s\<close> is an escape sequence, the result is \<open>s\<close>.
\<close>

theorem strip_ansi_codes_exact:
  "strips_to s (strip_ansi_codes s) \<and>
   (\<forall>out. strips_to s out \<longrightarrow> out = strip_ansi_codes s) \<and>
   ((\<forall>e. sublist e s \<longrightarrow> \<not> escape_sequence e) \<longrightarrow> strip_ansi_codes s = s)"
  using strips_to_strip strips_to_unique strip_clean by blast

lemma escape_sequence_has_ESC: "escape_sequence e \<Longrightarrow> ESC \<in> set e"
  by (auto simp add: escape_sequence_def csi_sequence_def osc_sequence_def split: list.splits)

lemma strip_example:
  "strip_ansi_codes (ESC # ''[0;32mok'' @ ESC # '']0;t'' @ BEL # ''!'') = ''ok!''"
  by (simp add: strip_Cons strip_Nil escape_tail_def csi_param_def ascii_letter_def)

theorem strip_ansi_codes_exact_witness:
  "\<not> (\<exists>e. sublist e ''total 8'' \<and> escape_sequence e) \<and>
   strip_ansi_codes ''total 8'' = ''total 8'' \<and>
   strips_to (ESC # ''[0;32mok'' @ ESC # '']0;t'' @ BEL # ''!'') ''ok!''"
proof -
  have clean: "\<forall>e. sublist e ''total 8'' \<longrightarrow> \<not> escape_sequence e"
  proof (intro allI impI notI)
    fix e assume "sublist e ''total 8''" "escape_sequence e"
    then have "ESC \<in> set ''total 8''"
      using escape_sequence_has_ESC set_mono_sublist by blast
    then show False by simp
  qed
  show ?thesis
    using clean strip_example strip_ansi_codes_exact [of "''total 8''"]
      strip_ansi_codes_exact [of "ESC # ''[0;32mok'' @ ESC # '']0;t'' @ BEL # ''!''"]
    by simp
qed

section \<open>Receive loops\<close>

lemma exec_loop_append:
  "exec_loop dec p start st pre = Running st' \<Longrightarrow>
   exec_loop dec p start st (pre @ post) = exec_loop dec p start st' post"
proof (induction pre arbitrary: st)
  case Nil
  then show ?case by simp
next
  case (Cons ev evs)
  then show ?case by (cases "exec_iteration dec p start st ev") auto
qed

lemma stream_loop_append:
  "stream_loop p start st pre = Running st' \<Longrightarrow>
   stream_loop p start st (pre @ post) = stream_loop p start st' post"
proof (induction pre arbitrary: st)
  case Nil
  then show ?case by simp
next
  case (Cons ev evs)
  then show ?case by (cases "stream_iteration p start st ev") auto
qed

lemma exec_iteration_msg:
  "\<not> timed_out now start (timeout p) \<Longrightarrow>
   exec_iteration dec p start st (now, RecvMsg m) = exec_message dec p st m"
  by (simp add: exec_iteration_def)

lemma stream_iteration_msg:
  "\<not> timed_out now start (timeout p) \<Longrightarrow>
   stream_iteration p start st (now, RecvMsg m) = stack_message st m"
  by (simp add: stream_iteration_def)

section \<open>The sample sessions, evaluated\<close>

lemma strip_no_ESC: "ESC \<notin> set s \<Longrightarrow> strip_ansi_codes s = s"
proof (rule strip_clean, intro allI impI notI)
  fix e assume "ESC \<notin> set s" "sublist e s" "escape_sequence e"
  then show False using escape_sequence_has_ESC set_mono_sublist by blast
qed

lemma sample_session:
  "exec_loop sample_decoder sample_params 0 (exec_connected sample_params) sample_frames
     = Running sample_state"
  by (simp add: sample_frames_def sample_params_def sample_decoder_def sample_state_def
        exec_connected_def exec_init_def exec_iteration_def exec_message_def timed_out_def
        should_skip_output_def strip_no_ESC auth_header_def sublist_Cons_right prefix_def)

lemma sample_start:
  "start_operation sample_stack_params stack_init (HttpOk (Some ''op-7'')) =
     Returned sample_started ''op-7''"
  by (simp add: start_operation_def sample_stack_params_def stack_init_def sample_started_def
        auth_header_def)

lemma sample_stream:
  "stream_loop sample_stack_params 0 (stream_connected sample_stack_params sample_started)
     sample_stack_frames = Running sample_stack_state"
  by (simp add: sample_stack_frames_def sample_stack_params_def sample_started_def
        sample_stack_state_def stream_connected_def stream_iteration_def stack_message_def
        append_data_def rstrip_nl_def timed_out_def auth_header_def)

lemma sample_params_simps:
  "timeout sample_params = 30" "command sample_params = ''ls''"
  by (simp_all add: sample_params_def)

lemma sample_stack_params_simps:
  "timeout sample_stack_params = 600" "operation sample_stack_params = ''restart''"
  "stack_name sample_stack_params = ''web''" "services sample_stack_params = [''app'', ''db'']"
  by (simp_all add: sample_stack_params_def)

lemma sample_decoder_simps:
  "sample_decoder ''L2FwcCAjIA=='' = Inr ''/app # ''"
  "sample_decoder ''bHMNCg=='' = Inr (''ls'' @ [CR, NL])"
  "sample_decoder ''dG90YWwgOA0K'' = Inr (''total 8'' @ [CR, NL])"
  by (simp_all add: sample_decoder_def)

lemma str_int_30: "str_int 30 = ''30''"
  by code_simp

lemma str_int_600: "str_int 600 = ''600''"
  by code_simp

section \<open>The exec client: the output filter\<close>

lemma exec_message_output:
  "session_ready st \<Longrightarrow> b64 \<noteq> [] \<Longrightarrow> dec b64 = Inr decoded \<Longrightarrow>
   exec_message dec p st (MsgTerminalOutput (Some b64)) =
     Running (if strip_ansi_codes decoded \<noteq> [] \<and> \<not> should_skip_output p st (strip_ansi_codes decoded)
              then st\<lparr>output_lines := output_lines st @ [strip_ansi_codes decoded]\<rparr> else st)"
  by (simp add: exec_message_def Let_def)

lemma exec_scripted_session:
  assumes t: "\<not> timed_out ta start (timeout p)" "\<not> timed_out tb start (timeout p)"
      "\<not> timed_out tc start (timeout p)" "\<not> timed_out td start (timeout p)"
      "\<not> timed_out te start (timeout p)"
    and ba: "ba \<noteq> []" "dec ba = Inr da" "prefix ''/app #'' (strip_ansi_codes da)"
    and bb: "bb \<noteq> []" "dec bb = Inr db" "sublist (command p) (strip_ansi_codes db)"
    and bc: "bc \<noteq> []" "dec bc = Inr dc"
    and out: "out = (if strip_ansi_codes dc \<noteq> [] \<and> \<not> sublist (command p) (strip_ansi_codes dc) \<and>
                        \<not> prefix ''/app #'' (strip_ansi_codes dc) \<and>
                        \<not> prefix ''exit'' (strip_ansi_codes dc)
                     then [strip_ansi_codes dc] else [])"
  shows "report_of (exec_execute dec p None start
           [(ta, RecvMsg (MsgSuccess sid)),
            (tb, RecvMsg (MsgTerminalOutput (Some ba))),
            (tc, RecvMsg (MsgTerminalOutput (Some bb))),
            (td, RecvMsg (MsgTerminalOutput (Some bc))),
            (te, RecvMsg (MsgTerminalClose (Some 0)))]) =
         Report \<lparr>r_changed = False, r_exit_code = 0, r_stdout = concat out,
                 r_stderr = [], r_output = out, r_failed = False\<rparr>"
proof -
  let ?s0 = "exec_connected p"
  let ?s1 = "?s0\<lparr>actions := actions ?s0 @
                        [WsSend (TerminalInput sid (command p @ [NL])),
                         WsSend (TerminalInput sid (''exit'' @ [NL]))],
                     session_id := sid, command_sent := True, session_ready := True\<rparr>"
  have i1: "exec_iteration dec p start ?s0 (ta, RecvMsg (MsgSuccess sid)) = Running ?s1"
    using t(1) by (simp add: exec_iteration_msg exec_message_def)
  have rs: "session_ready ?s1" "command_sent ?s1" by simp_all
  have i2: "exec_iteration dec p start ?s1 (tb, RecvMsg (MsgTerminalOutput (Some ba))) = Running ?s1"
    using t(2) ba rs by (simp add: exec_iteration_msg exec_message_output should_skip_output_def)
  have i3: "exec_iteration dec p start ?s1 (tc, RecvMsg (MsgTerminalOutput (Some bb))) = Running ?s1"
    using t(3) bb rs by (simp add: exec_iteration_msg exec_message_output should_skip_output_def)
  let ?s2 = "?s1\<lparr>output_lines := out\<rparr>"
  have i4: "exec_iteration dec p start ?s1 (td, RecvMsg (MsgTerminalOutput (Some bc))) = Running ?s2"
    using t(4) bc rs out
    by (simp add: exec_iteration_msg exec_message_output should_skip_output_def
          exec_connected_def exec_init_def)
  have i5: "exec_iteration dec p start ?s2 (te, RecvMsg (MsgTerminalClose (Some 0))) =
      Returned (ws_closed (?s2\<lparr>exit_code := Some 0\<rparr>)) ()"
    using t(5) by (simp add: exec_iteration_msg exec_message_def)
  have "exec_loop dec p start ?s0
           [(ta, RecvMsg (MsgSuccess sid)),
            (tb, RecvMsg (MsgTerminalOutput (Some ba))),
            (tc, RecvMsg (MsgTerminalOutput (Some bb))),
            (td, RecvMsg (MsgTerminalOutput (Some bc))),
            (te, RecvMsg (MsgTerminalClose (Some 0)))] =
        Returned (ws_closed (?s2\<lparr>exit_code := Some 0\<rparr>)) ()"
    by (simp only: exec_loop.simps i1 i2 i3 i4 i5 run.case)
  then show ?thesis
    by (simp add: exec_execute_def execute_command_def exec_result_of_def ws_closed_def)
qed

text \<open>
  Within a session the filter only ever runs with \<open>command_sent\<close> true: the session
  becomes ready and the command is sent in the same step, so the branch of
  \<open>should_skip_output\<close> for the time before the command is reached by direct calls only.
\<close>

lemma exec_iteration_ready_sent:
  assumes "session_ready st \<longrightarrow> command_sent st"
  shows "session_ready (run_state (exec_iteration dec p start st ev)) \<longrightarrow>
         command_sent (run_state (exec_iteration dec p start st ev))"
proof (cases ev)
  case (Pair now r)
  show ?thesis
  proof (cases r)
    case (RecvMsg m)
    with assms Pair show ?thesis
      by (cases m)
         (auto simp add: exec_iteration_def exec_message_def ws_closed_def Let_def
            split: option.splits sum.splits)
  qed (use assms Pair in \<open>auto simp add: exec_iteration_def ws_closed_def\<close>)
qed

lemma exec_loop_ready_sent:
  assumes "session_ready st \<longrightarrow> command_sent st"
  shows "session_ready (run_state (exec_loop dec p start st frames)) \<longrightarrow>
         command_sent (run_state (exec_loop dec p start st frames))"
  using assms
proof (induction frames arbitrary: st)
  case Nil
  then show ?case by simp
next
  case (Cons ev evs)
  note step = exec_iteration_ready_sent [OF Cons.prems, of dec p start ev]
  show ?case
  proof (cases "exec_iteration dec p start st ev")
    case (Running st')
    with step have "session_ready st' \<longrightarrow> command_sent st'" by simp
    from Cons.IH [OF this] Running show ?thesis by simp
  next
    case (Returned st' u)
    with step show ?thesis by simp
  next
    case (Failed st' f)
    with step show ?thesis by simp
  qed
qed

lemma exec_session_ready_sent:
  "session_ready (run_state (execute_command dec p conn start frames)) \<longrightarrow>
   command_sent (run_state (execute_command dec p conn start frames))"
proof (cases conn)
  case (Some e)
  then show ?thesis by (simp add: execute_command_def exec_init_def)
next
  case None
  have "session_ready (exec_connected p) \<longrightarrow> command_sent (exec_connected p)"
    by (simp add: exec_connected_def exec_init_def)
  from exec_loop_ready_sent [OF this] None show ?thesis by (simp add: execute_command_def)
qed

text \<open>
  Claim C2. \<open>should_skip_output\<close> drops a cleaned line, before the command has been
  sent, exactly when it matches the prompt pattern (it starts with \<open>/app #\<close>), and, after
  the command has been sent, exactly when it contains the command text, starts with
  \<open>/app #\<close> or starts with \<open>exit\<close>. Once the session is ready, a decoded and cleaned
  \<open>terminal_output\<close> that is not empty and not dropped is appended to the captured output,
  and nothing else is. For the scripted peer (success, prompt echo, command echo, real
  output, \<open>terminal_close\<close> with exit code 0) the captured output holds the real output
  line and nothing else (the line itself is subject to the same filter), and \<open>failed\<close> is
  false.
\<close>

theorem exec_output_filter:
  "(\<not> command_sent st \<longrightarrow> should_skip_output p st line = prefix ''/app #'' line) \<and>
   (command_sent st \<longrightarrow>
      should_skip_output p st line =
        (sublist (command p) line \<or> prefix ''/app #'' line \<or> prefix ''exit'' line)) \<and>
   (session_ready st \<and> b64 \<noteq> [] \<and> dec b64 = Inr decoded \<longrightarrow>
      exec_message dec p st (MsgTerminalOutput (Some b64)) =
        Running (if strip_ansi_codes decoded \<noteq> [] \<and>
                    \<not> should_skip_output p st (strip_ansi_codes decoded)
                 then st\<lparr>output_lines := output_lines st @ [strip_ansi_codes decoded]\<rparr>
                 else st)) \<and>
   (\<not> timed_out ta start (timeout p) \<and> \<not> timed_out tb start (timeout p) \<and>
    \<not> timed_out tc start (timeout p) \<and> \<not> timed_out td start (timeout p) \<and>
    \<not> timed_out te start (timeout p) \<and>
    ba \<noteq> [] \<and> dec ba = Inr da \<and> prefix ''/app #'' (strip_ansi_codes da) \<and>
    bb \<noteq> [] \<and> dec bb = Inr db \<and> sublist (command p) (strip_ansi_codes db) \<and>
    bc \<noteq> [] \<and> dec bc = Inr dc \<longrightarrow>
      report_of (exec_execute dec p None start
           [(ta, RecvMsg (MsgSuccess sid)),
            (tb, RecvMsg (MsgTerminalOutput (Some ba))),
            (tc, RecvMsg (MsgTerminalOutput (Some bb))),
            (td, RecvMsg (MsgTerminalOutput (Some bc))),
            (te, RecvMsg (MsgTerminalClose (Some 0)))]) =
        (let out = (if strip_ansi_codes dc \<noteq> [] \<and>
                       \<not> sublist (command p) (strip_ansi_codes dc) \<and>
                       \<not> prefix ''/app #'' (strip_ansi_codes dc) \<and>
                       \<not> prefix ''exit'' (strip_ansi_codes dc)
                    then [strip_ansi_codes dc] else [])
         in Report \<lparr>r_changed = False, r_exit_code = 0, r_stdout = concat out,
                    r_stderr = [], r_output = out, r_failed = False\<rparr>))"
proof (intro conjI impI)
  show "should_skip_output p st line = prefix ''/app #'' line" if "\<not> command_sent st"
    using that by (simp add: should_skip_output_def)
  show "should_skip_output p st line =
        (sublist (command p) line \<or> prefix ''/app #'' line \<or> prefix ''exit'' line)"
    if "command_sent st"
    using that by (simp add: should_skip_output_def)
  show "exec_message dec p st (MsgTerminalOutput (Some b64)) =
        Running (if strip_ansi_codes decoded \<noteq> [] \<and>
                    \<not> should_skip_output p st (strip_ansi_codes decoded)
                 then st\<lparr>output_lines := output_lines st @ [strip_ansi_codes decoded]\<rparr>
                 else st)"
    if "session_ready st \<and> b64 \<noteq> [] \<and> dec b64 = Inr decoded"
    using that by (simp add: exec_message_output)
  show "report_of (exec_execute dec p None start
           [(ta, RecvMsg (MsgSuccess sid)),
            (tb, RecvMsg (MsgTerminalOutput (Some ba))),
            (tc, RecvMsg (MsgTerminalOutput (Some bb))),
            (td, RecvMsg (MsgTerminalOutput (Some bc))),
            (te, RecvMsg (MsgTerminalClose (Some 0)))]) =
        (let out = (if strip_ansi_codes dc \<noteq> [] \<and>
                       \<not> sublist (command p) (strip_ansi_codes dc) \<and>
                       \<not> prefix ''/app #'' (strip_ansi_codes dc) \<and>
                       \<not> prefix ''exit'' (strip_ansi_codes dc)
                    then [strip_ansi_codes dc] else [])
         in Report \<lparr>r_changed = False, r_exit_code = 0, r_stdout = concat out,
                    r_stderr = [], r_output = out, r_failed = False\<rparr>)"
    if "\<not> timed_out ta start (timeout p) \<and> \<not> timed_out tb start (timeout p) \<and>
    \<not> timed_out tc start (timeout p) \<and> \<not> timed_out td start (timeout p) \<and>
    \<not> timed_out te start (timeout p) \<and>
    ba \<noteq> [] \<and> dec ba = Inr da \<and> prefix ''/app #'' (strip_ansi_codes da) \<and>
    bb \<noteq> [] \<and> dec bb = Inr db \<and> sublist (command p) (strip_ansi_codes db) \<and>
    bc \<noteq> [] \<and> dec bc = Inr dc"
    unfolding Let_def
    by (rule exec_scripted_session [where da = da and db = db]) (use that in blast)+
qed

theorem exec_output_filter_witness:
  "should_skip_output sample_params exec_init ''/app # '' \<and>
   \<not> should_skip_output sample_params exec_init ''exit'' \<and>
   should_skip_output sample_params sample_state ''exit'' \<and>
   should_skip_output sample_params sample_state ''tools'' \<and>
   \<not> should_skip_output sample_params sample_state ''total 8'' \<and>
   exec_message sample_decoder sample_params sample_state (MsgTerminalOutput (Some ''dG90YWwgOA0K'')) =
     Running (sample_state\<lparr>output_lines := [''total 8'' @ [CR, NL], ''total 8'' @ [CR, NL]]\<rparr>) \<and>
   report_of (exec_execute sample_decoder sample_params None 0
           [(0.1, RecvMsg (MsgSuccess (Some ''sess-1''))),
            (0.5, RecvMsg (MsgTerminalOutput (Some ''L2FwcCAjIA==''))),
            (0.6, RecvMsg (MsgTerminalOutput (Some ''bHMNCg==''))),
            (0.7, RecvMsg (MsgTerminalOutput (Some ''dG90YWwgOA0K''))),
            (0.9, RecvMsg (MsgTerminalClose (Some 0)))]) =
         Report \<lparr>r_changed = False, r_exit_code = 0, r_stdout = ''total 8'' @ [CR, NL],
                 r_stderr = [], r_output = [''total 8'' @ [CR, NL]], r_failed = False\<rparr>"
proof -
  note F = exec_output_filter [where p = sample_params and dec = sample_decoder
      and ?b64.0 = "''dG90YWwgOA0K''" and decoded = "''total 8'' @ [CR, NL]"
      and ta = "0.1" and tb = "0.5" and tc = "0.6" and td = "0.7" and te = "0.9" and start = 0
      and ba = "''L2FwcCAjIA==''" and da = "''/app # ''"
      and bb = "''bHMNCg==''" and db = "''ls'' @ [CR, NL]"
      and bc = "''dG90YWwgOA0K''" and dc = "''total 8'' @ [CR, NL]"
      and sid = "Some ''sess-1''"]
  have a: "\<not> command_sent exec_init" by (simp add: exec_init_def)
  have b: "command_sent sample_state" "session_ready sample_state"
    "output_lines sample_state = [''total 8'' @ [CR, NL]]"
    by (simp_all add: sample_state_def)
  have c1: "should_skip_output sample_params exec_init ''/app # ''"
    using F [where st = exec_init and line = "''/app # ''", THEN conjunct1] a by simp
  have c2: "\<not> should_skip_output sample_params exec_init ''exit''"
    using F [where st = exec_init and line = "''exit''", THEN conjunct1] a by simp
  have c3: "should_skip_output sample_params sample_state ''exit''"
    using F [where st = sample_state and line = "''exit''", THEN conjunct2, THEN conjunct1] b
    by simp
  have c4: "should_skip_output sample_params sample_state ''tools''"
    using F [where st = sample_state and line = "''tools''", THEN conjunct2, THEN conjunct1] b
    by (simp add: sample_params_simps sublist_Cons_right)
  have c5: "\<not> should_skip_output sample_params sample_state ''total 8''"
    using F [where st = sample_state and line = "''total 8''", THEN conjunct2, THEN conjunct1] b
    by (simp add: sample_params_simps sublist_Cons_right prefix_def)
  have c5': "\<not> should_skip_output sample_params sample_state (''total 8'' @ [CR, NL])"
    using F [where st = sample_state and line = "''total 8'' @ [CR, NL]", THEN conjunct2, THEN conjunct1] b
    by (simp add: sample_params_simps sublist_Cons_right prefix_def)
  have c6: "exec_message sample_decoder sample_params sample_state (MsgTerminalOutput (Some ''dG90YWwgOA0K'')) =
     Running (sample_state\<lparr>output_lines := [''total 8'' @ [CR, NL], ''total 8'' @ [CR, NL]]\<rparr>)"
    using F [where st = sample_state and line = "[]", THEN conjunct2, THEN conjunct2, THEN conjunct1]
      b c5'
    by (simp add: sample_decoder_simps strip_no_ESC)
  have c7: "report_of (exec_execute sample_decoder sample_params None 0
           [(0.1, RecvMsg (MsgSuccess (Some ''sess-1''))),
            (0.5, RecvMsg (MsgTerminalOutput (Some ''L2FwcCAjIA==''))),
            (0.6, RecvMsg (MsgTerminalOutput (Some ''bHMNCg==''))),
            (0.7, RecvMsg (MsgTerminalOutput (Some ''dG90YWwgOA0K''))),
            (0.9, RecvMsg (MsgTerminalClose (Some 0)))]) =
         Report \<lparr>r_changed = False, r_exit_code = 0, r_stdout = ''total 8'' @ [CR, NL],
                 r_stderr = [], r_output = [''total 8'' @ [CR, NL]], r_failed = False\<rparr>"
    using F [where st = sample_state and line = "[]", THEN conjunct2, THEN conjunct2, THEN conjunct2]
    by (simp add: sample_params_simps sample_decoder_simps strip_no_ESC timed_out_def
          sublist_Cons_right prefix_def)
  from c1 c2 c3 c4 c5 c6 c7 show ?thesis by blast
qed

section \<open>The exec client: the result\<close>

text \<open>
  Claim C3. When a session whose receive loop is still running gets a \<open>terminal_close\<close>
  before the deadline, \<open>execute\<close> returns: \<open>stdout\<close> is the concatenation of the captured
  lines, \<open>stderr\<close> is empty, \<open>output\<close> is the list of captured lines, \<open>exit_code\<close> is the
  code carried by the message (0 when it carries none), and \<open>failed\<close> holds exactly when that
  code is not 0. A state in which no exit code was recorded gives \<open>failed = False\<close> and
  exit code 0.
\<close>

theorem exec_terminal_close_result:
  "(exec_loop dec p start (exec_connected p) pre = Running st \<and> \<not> timed_out now start (timeout p) \<longrightarrow>
      report_of (exec_execute dec p None start (pre @ (now, RecvMsg (MsgTerminalClose code)) # post)) =
        Report \<lparr>r_changed = False,
                r_exit_code = (case code of None \<Rightarrow> 0 | Some n \<Rightarrow> n),
                r_stdout = concat (output_lines st),
                r_stderr = [],
                r_output = output_lines st,
                r_failed = ((case code of None \<Rightarrow> 0 | Some n \<Rightarrow> n) \<noteq> 0)\<rparr>) \<and>
   (exit_code st0 = None \<longrightarrow>
      r_failed (exec_result_of st0) = False \<and> r_exit_code (exec_result_of st0) = 0)"
proof (intro conjI impI)
  assume h: "exec_loop dec p start (exec_connected p) pre = Running st \<and> \<not> timed_out now start (timeout p)"
  then have "exec_loop dec p start (exec_connected p) (pre @ (now, RecvMsg (MsgTerminalClose code)) # post)
      = exec_loop dec p start st ((now, RecvMsg (MsgTerminalClose code)) # post)"
    by (simp add: exec_loop_append)
  also have "\<dots> = Returned (ws_closed (st\<lparr>exit_code := Some (case code of None \<Rightarrow> 0 | Some n \<Rightarrow> n)\<rparr>)) ()"
    using h by (simp add: exec_iteration_msg exec_message_def)
  finally show "report_of (exec_execute dec p None start (pre @ (now, RecvMsg (MsgTerminalClose code)) # post)) =
        Report \<lparr>r_changed = False,
                r_exit_code = (case code of None \<Rightarrow> 0 | Some n \<Rightarrow> n),
                r_stdout = concat (output_lines st),
                r_stderr = [],
                r_output = output_lines st,
                r_failed = ((case code of None \<Rightarrow> 0 | Some n \<Rightarrow> n) \<noteq> 0)\<rparr>"
    by (simp add: exec_execute_def execute_command_def exec_result_of_def ws_closed_def)
next
  assume "exit_code st0 = None"
  then show "r_failed (exec_result_of st0) = False" by (simp add: exec_result_of_def)
next
  assume "exit_code st0 = None"
  then show "r_exit_code (exec_result_of st0) = 0" by (simp add: exec_result_of_def)
qed

theorem exec_terminal_close_result_witness:
  "report_of (exec_execute sample_decoder sample_params None 0
      (sample_frames @ [(0.9, RecvMsg (MsgTerminalClose (Some 2)))])) =
     Report \<lparr>r_changed = False, r_exit_code = 2, r_stdout = ''total 8'' @ [CR, NL],
             r_stderr = [], r_output = [''total 8'' @ [CR, NL]], r_failed = True\<rparr> \<and>
   report_of (exec_execute sample_decoder sample_params None 0
      (sample_frames @ [(0.9, RecvMsg (MsgTerminalClose None))])) =
     Report \<lparr>r_changed = False, r_exit_code = 0, r_stdout = ''total 8'' @ [CR, NL],
             r_stderr = [], r_output = [''total 8'' @ [CR, NL]], r_failed = False\<rparr> \<and>
   r_failed (exec_result_of exec_init) = False \<and> r_exit_code (exec_result_of exec_init) = 0"
proof -
  have a: "\<not> timed_out 0.9 0 (timeout sample_params)"
    by (simp add: timed_out_def sample_params_simps)
  have b: "exit_code exec_init = None" "output_lines sample_state = [''total 8'' @ [CR, NL]]"
    by (simp_all add: exec_init_def sample_state_def)
  show ?thesis
    using exec_terminal_close_result [where dec = sample_decoder and p = sample_params
        and start = 0 and pre = sample_frames and st = sample_state and now = "0.9"
        and code = "Some 2" and post = "[]" and ?st0.0 = exec_init]
      exec_terminal_close_result [where dec = sample_decoder and p = sample_params
        and start = 0 and pre = sample_frames and st = sample_state and now = "0.9"
        and code = None and post = "[]" and ?st0.0 = exec_init]
      sample_session a b
    by simp
qed

section \<open>The stack client: starting the operation\<close>

lemma start_operation_actions:
  "actions (run_state (start_operation q stack_init reply)) =
     [HttpPost [auth_header (api_key q), ''Content-Type: application/json'']]"
  by (cases reply)
     (auto simp add: start_operation_def stack_init_def Let_def split: option.splits)

lemma start_operation_Returned:
  "start_operation q st reply = Returned st' i \<Longrightarrow> reply = HttpOk (Some i) \<and> i \<noteq> []"
  by (cases reply)
     (auto simp add: start_operation_def Let_def split: option.splits if_splits)

lemma start_operation_not_Running: "start_operation q st reply \<noteq> Running st'"
  by (cases reply)
     (auto simp add: start_operation_def Let_def split: option.splits if_splits)

text \<open>
  Claim C4. When the POST succeeds and the parsed body has no operation id (the key is
  absent, or it is the empty string), \<open>execute\<close> fails with
  \<open>No operation ID returned from server\<close>, and the only thing that went out is the POST: no
  WebSocket connection was attempted. Conversely, whenever a WebSocket connection was
  attempted, the POST had returned a non-empty operation id.
\<close>

theorem missing_operation_id_fails_before_websocket:
  "(oid = None \<or> oid = Some [] \<longrightarrow>
      stack_execute q (HttpOk oid) conn start frames =
        Failed (stack_init\<lparr>actions := [HttpPost [auth_header (api_key q),
                                                  ''Content-Type: application/json'']],
                           operation_id := oid\<rparr>)
          \<lparr>f_msg = ''No operation ID returned from server'', f_details = None,
           f_operation_id = None, f_output = None\<rparr>) \<and>
   ((\<exists>h. WsConnect h \<in> set (actions (run_state (stack_execute q reply conn start frames)))) \<longrightarrow>
      (\<exists>i. reply = HttpOk (Some i) \<and> i \<noteq> []))"
proof (intro conjI impI)
  assume "oid = None \<or> oid = Some []"
  then show "stack_execute q (HttpOk oid) conn start frames =
        Failed (stack_init\<lparr>actions := [HttpPost [auth_header (api_key q),
                                                  ''Content-Type: application/json'']],
                           operation_id := oid\<rparr>)
          \<lparr>f_msg = ''No operation ID returned from server'', f_details = None,
           f_operation_id = None, f_output = None\<rparr>"
    by (auto simp add: stack_execute_def start_operation_def stack_init_def fail_msg_def)
next
  assume ws: "\<exists>h. WsConnect h \<in> set (actions (run_state (stack_execute q reply conn start frames)))"
  show "\<exists>i. reply = HttpOk (Some i) \<and> i \<noteq> []"
  proof (cases "start_operation q stack_init reply")
    case (Running st')
    then show ?thesis by (simp add: start_operation_not_Running)
  next
    case (Returned st' i)
    then show ?thesis by (auto dest: start_operation_Returned)
  next
    case (Failed st' f)
    then have "run_state (stack_execute q reply conn start frames) =
        run_state (start_operation q stack_init reply)"
      by (simp add: stack_execute_def)
    with ws start_operation_actions [of q reply] show ?thesis by simp
  qed
qed

theorem missing_operation_id_fails_before_websocket_witness:
  "report_of (stack_execute sample_stack_params (HttpOk None) None 0 sample_stack_frames) =
     FailReport \<lparr>f_msg = ''No operation ID returned from server'', f_details = None,
                 f_operation_id = None, f_output = None\<rparr> \<and>
   actions (run_state (stack_execute sample_stack_params (HttpOk (Some [])) None 0 sample_stack_frames)) =
     [HttpPost [''Authorization: Bearer s3cret'', ''Content-Type: application/json'']] \<and>
   WsConnect [''Authorization: Bearer s3cret''] \<in>
     set (actions (run_state
       (stack_execute sample_stack_params (HttpOk (Some ''op-7'')) None 0 sample_stack_frames)))"
proof -
  have ws: "stack_execute sample_stack_params (HttpOk (Some ''op-7'')) None 0 sample_stack_frames
      = Running sample_stack_state"
    by (simp add: stack_execute_def sample_start stream_operation_def sample_stream)
  then have "\<exists>h. WsConnect h \<in> set (actions (run_state
       (stack_execute sample_stack_params (HttpOk (Some ''op-7'')) None 0 sample_stack_frames)))"
    by (simp add: sample_stack_state_def)
  with missing_operation_id_fails_before_websocket [where q = sample_stack_params
      and reply = "HttpOk (Some ''op-7'')" and conn = None and start = 0
      and frames = sample_stack_frames and oid = None]
  have "\<exists>i. HttpOk (Some ''op-7'') = HttpOk (Some i) \<and> i \<noteq> []" by blast
  show ?thesis
    using missing_operation_id_fails_before_websocket [where q = sample_stack_params
        and reply = "HttpOk None" and conn = None and start = 0
        and frames = sample_stack_frames and oid = None]
      missing_operation_id_fails_before_websocket [where q = sample_stack_params
        and reply = "HttpOk None" and conn = None and start = 0
        and frames = sample_stack_frames and oid = "Some []"]
      ws
    by (simp add: sample_stack_state_def sample_stack_params_def auth_header_def stack_init_def)
qed

section \<open>The stack client: accumulating output\<close>

lemma rstrip_nl_trailing:
  assumes "body = [] \<or> last body \<noteq> NL"
  shows "rstrip_nl (body @ replicate n NL) = body"
proof -
  have "dropWhile (\<lambda>c. c = NL) (replicate n NL @ rev body) = dropWhile (\<lambda>c. c = NL) (rev body)"
    by (rule dropWhile_append2) simp
  moreover have "dropWhile (\<lambda>c. c = NL) (rev body) = rev body"
    using assms by (cases "rev body") (auto simp add: last_rev [symmetric] simp del: last_rev)
  ultimately show ?thesis by (simp add: rstrip_nl_def)
qed

text \<open>
  Claim C5, as amended. A \<open>stdout\<close> or \<open>stderr\<close> message with a non-empty payload appends
  the payload with all its trailing newlines stripped; a \<open>progress\<close> message with a
  non-empty payload appends \<open>[timestamp] payload\<close> (the timestamp empty when the message
  has none); a message whose payload is absent or empty appends nothing. For the stream
  \<open>stdout{"a"}\<close>, \<open>progress{"b", T}\<close>, \<open>complete{success: true}\<close> the result has
  \<open>output = ["a", "[T] b"]\<close>, \<open>failed = False\<close> and exit code 0.
\<close>

theorem stack_output_accumulation:
  "(data \<noteq> [] \<longrightarrow>
      stack_message st (MsgStdout (Some data)) =
        Running (st\<lparr>output_lines := output_lines st @ [rstrip_nl data]\<rparr>) \<and>
      stack_message st (MsgStderr (Some data)) =
        Running (st\<lparr>output_lines := output_lines st @ [rstrip_nl data]\<rparr>) \<and>
      stack_message st (MsgProgress (Some data) ts) =
        Running (st\<lparr>output_lines := output_lines st @
                   [''['' @ (case ts of None \<Rightarrow> [] | Some t \<Rightarrow> t) @ ''] '' @ data]\<rparr>)) \<and>
   stack_message st (MsgStdout None) = Running st \<and>
   stack_message st (MsgStdout (Some [])) = Running st \<and>
   stack_message st (MsgStderr None) = Running st \<and>
   stack_message st (MsgStderr (Some [])) = Running st \<and>
   stack_message st (MsgProgress None ts) = Running st \<and>
   stack_message st (MsgProgress (Some []) ts) = Running st \<and>
   (body = [] \<or> last body \<noteq> NL \<longrightarrow> rstrip_nl (body @ replicate n NL) = body) \<and>
   (oid \<noteq> [] \<and> \<not> timed_out ta start (timeout q) \<and> \<not> timed_out tb start (timeout q) \<and>
    \<not> timed_out tc start (timeout q) \<longrightarrow>
      report_of (stack_execute q (HttpOk (Some oid)) None start
          [(ta, RecvMsg (MsgStdout (Some ''a''))),
           (tb, RecvMsg (MsgProgress (Some ''b'') (Some T))),
           (tc, RecvMsg (MsgComplete (Some True) None))]) =
        Report \<lparr>sr_changed = True, sr_operation_id = Some oid,
                sr_message = ''Successfully completed '' @ operation q @ '' operation on stack ''
                    @ stack_name q @
                    (if services q \<noteq> [] then '' on services '' @ join '', '' (services q) else []),
                sr_exit_code = Some 0,
                sr_output = [''a'', ''['' @ T @ ''] b''],
                sr_failed = False\<rparr>)"
proof (intro conjI impI)
  show "rstrip_nl (body @ replicate n NL) = body" if "body = [] \<or> last body \<noteq> NL"
    using that by (rule rstrip_nl_trailing)
  show "report_of (stack_execute q (HttpOk (Some oid)) None start
          [(ta, RecvMsg (MsgStdout (Some ''a''))),
           (tb, RecvMsg (MsgProgress (Some ''b'') (Some T))),
           (tc, RecvMsg (MsgComplete (Some True) None))]) =
        Report \<lparr>sr_changed = True, sr_operation_id = Some oid,
                sr_message = ''Successfully completed '' @ operation q @ '' operation on stack ''
                    @ stack_name q @
                    (if services q \<noteq> [] then '' on services '' @ join '', '' (services q) else []),
                sr_exit_code = Some 0,
                sr_output = [''a'', ''['' @ T @ ''] b''],
                sr_failed = False\<rparr>"
    if "oid \<noteq> [] \<and> \<not> timed_out ta start (timeout q) \<and> \<not> timed_out tb start (timeout q) \<and>
        \<not> timed_out tc start (timeout q)"
    using that
    by (simp add: stack_execute_def start_operation_def stream_operation_def stream_connected_def
          stream_iteration_msg stack_message_def append_data_def rstrip_nl_def ws_closed_def
          stack_result_of_def truthy_def stack_init_def Let_def)
qed (simp_all add: stack_message_def append_data_def)

theorem stack_output_accumulation_witness:
  "stack_message sample_started (MsgStdout (Some (''a'' @ [NL, NL]))) =
     Running (sample_started\<lparr>output_lines := [''a'']\<rparr>) \<and>
   stack_message sample_started (MsgStderr (Some ''warn'')) =
     Running (sample_started\<lparr>output_lines := [''warn'']\<rparr>) \<and>
   stack_message sample_started (MsgProgress (Some ''b'') None) =
     Running (sample_started\<lparr>output_lines := [''[] b'']\<rparr>) \<and>
   rstrip_nl (''a'' @ replicate 2 NL) = ''a'' \<and>
   report_of (stack_execute sample_stack_params (HttpOk (Some ''op-7'')) None 0
          [(1, RecvMsg (MsgStdout (Some ''a''))),
           (2, RecvMsg (MsgProgress (Some ''b'') (Some ''12:00''))),
           (3, RecvMsg (MsgComplete (Some True) None))]) =
        Report \<lparr>sr_changed = True, sr_operation_id = Some ''op-7'',
                sr_message = ''Successfully completed restart operation on stack web on services app, db'',
                sr_exit_code = Some 0,
                sr_output = [''a'', ''[12:00] b''],
                sr_failed = False\<rparr>"
proof -
  note F = stack_output_accumulation [where st = sample_started and body = "''a''" and n = 2
      and oid = "''op-7''" and ta = 1 and tb = 2 and tc = 3 and start = 0
      and q = sample_stack_params and T = "''12:00''"]
  have o: "output_lines sample_started = []" by (simp add: sample_started_def)
  have r: "rstrip_nl (''a'' @ [NL, NL]) = ''a''" by (simp add: rstrip_nl_def)
  show ?thesis
    using F [where data = "''a'' @ [NL, NL]" and ts = None]
      F [where data = "''warn''" and ts = None] F [where data = "''b''" and ts = None] o
    by (simp add: rstrip_nl_def timed_out_def sample_stack_params_simps)
qed

text \<open>
  The claim as it was stated, that every \<open>stdout\<close>/\<open>stderr\<close> message appends its payload
  and every \<open>progress\<close> message appends a line, fails on an empty payload: the source guards
  both branches with \<open>if data:\<close>.
\<close>

theorem stack_empty_payload_counterexample:
  "output_lines (run_state (stack_message stack_init (MsgStdout (Some [])))) \<noteq>
     output_lines stack_init @ [rstrip_nl []] \<and>
   output_lines (run_state (stack_message stack_init (MsgProgress (Some []) (Some ''T'')))) \<noteq>
     output_lines stack_init @ [''[T] '']"
  by (simp add: stack_message_def append_data_def stack_init_def)

section \<open>The stack client: the result\<close>

text \<open>
  Claim C6. When a stream whose receive loop is still running gets a \<open>complete\<close> message
  before the deadline, the recorded success flag is the one of the message (false when it
  has none), the exit code is the one given, or else 0 on success and 1 on failure, and the
  result has \<open>changed = True\<close> and \<open>failed\<close> the negation of the success flag.
\<close>

theorem stack_complete_result:
  "start_operation q stack_init reply = Returned st0 oid \<and>
   stream_loop q start (stream_connected q st0) pre = Running st \<and>
   \<not> timed_out now start (timeout q) \<longrightarrow>
     success (run_state (stack_execute q reply None start
        (pre @ (now, RecvMsg (MsgComplete s code)) # post))) =
       Some (case s of None \<Rightarrow> False | Some b \<Rightarrow> b) \<and>
     report_of (stack_execute q reply None start
        (pre @ (now, RecvMsg (MsgComplete s code)) # post)) =
       Report \<lparr>sr_changed = True,
               sr_operation_id = operation_id st,
               sr_message =
                 (if \<not> (case s of None \<Rightarrow> False | Some b \<Rightarrow> b) then ''Failed'' else ''Successfully completed'')
                 @ '' '' @ operation q @ '' operation on stack '' @ stack_name q @
                 (if services q \<noteq> [] then '' on services '' @ join '', '' (services q) else []),
               sr_exit_code = Some (case code of
                                      Some c \<Rightarrow> c
                                    | None \<Rightarrow> if (case s of None \<Rightarrow> False | Some b \<Rightarrow> b) then 0 else 1),
               sr_output = output_lines st,
               sr_failed = (\<not> (case s of None \<Rightarrow> False | Some b \<Rightarrow> b))\<rparr>"
proof (intro impI)
  assume h: "start_operation q stack_init reply = Returned st0 oid \<and>
   stream_loop q start (stream_connected q st0) pre = Running st \<and>
   \<not> timed_out now start (timeout q)"
  let ?ok = "case s of None \<Rightarrow> False | Some b \<Rightarrow> b"
  let ?final = "ws_closed (st\<lparr>exit_code := Some (case code of None \<Rightarrow> (if \<not> ?ok then 1 else 0) | Some c \<Rightarrow> c),
                               success := Some ?ok\<rparr>)"
  from h have "stream_loop q start (stream_connected q st0) (pre @ (now, RecvMsg (MsgComplete s code)) # post)
      = stream_loop q start st ((now, RecvMsg (MsgComplete s code)) # post)"
    by (simp add: stream_loop_append)
  also have "\<dots> = Returned ?final ()"
    using h by (simp add: stream_iteration_msg stack_message_def Let_def)
  finally have "stack_execute q reply None start (pre @ (now, RecvMsg (MsgComplete s code)) # post)
      = Returned ?final (stack_result_of q ?final)"
    using h by (simp add: stack_execute_def stream_operation_def)
  then show "success (run_state (stack_execute q reply None start
        (pre @ (now, RecvMsg (MsgComplete s code)) # post))) = Some ?ok \<and>
     report_of (stack_execute q reply None start
        (pre @ (now, RecvMsg (MsgComplete s code)) # post)) =
       Report \<lparr>sr_changed = True,
               sr_operation_id = operation_id st,
               sr_message =
                 (if \<not> ?ok then ''Failed'' else ''Successfully completed'')
                 @ '' '' @ operation q @ '' operation on stack '' @ stack_name q @
                 (if services q \<noteq> [] then '' on services '' @ join '', '' (services q) else []),
               sr_exit_code = Some (case code of
                                      Some c \<Rightarrow> c
                                    | None \<Rightarrow> if ?ok then 0 else 1),
               sr_output = output_lines st,
               sr_failed = (\<not> ?ok)\<rparr>"
    by (cases code) (simp_all add: stack_result_of_def ws_closed_def truthy_def)
qed

theorem stack_complete_result_witness:
  "report_of (stack_execute sample_stack_params (HttpOk (Some ''op-7'')) None 0
      (sample_stack_frames @ [(4, RecvMsg (MsgComplete (Some False) None))])) =
     Report \<lparr>sr_changed = True, sr_operation_id = Some ''op-7'',
             sr_message = ''Failed restart operation on stack web on services app, db'',
             sr_exit_code = Some 1, sr_output = [''a'', ''[12:00] b''], sr_failed = True\<rparr> \<and>
   report_of (stack_execute sample_stack_params (HttpOk (Some ''op-7'')) None 0
      (sample_stack_frames @ [(4, RecvMsg (MsgComplete (Some True) (Some 3)))])) =
     Report \<lparr>sr_changed = True, sr_operation_id = Some ''op-7'',
             sr_message = ''Successfully completed restart operation on stack web on services app, db'',
             sr_exit_code = Some 3, sr_output = [''a'', ''[12:00] b''], sr_failed = False\<rparr>"
proof -
  note F = stack_complete_result [where q = sample_stack_params and reply = "HttpOk (Some ''op-7'')"
      and ?st0.0 = sample_started and oid = "''op-7''" and start = 0 and pre = sample_stack_frames
      and st = sample_stack_state and now = 4 and post = "[]"]
  have t: "\<not> timed_out 4 0 (timeout sample_stack_params)"
    by (simp add: timed_out_def sample_stack_params_simps)
  have o: "output_lines sample_stack_state = [''a'', ''[12:00] b'']"
    "operation_id sample_stack_state = Some ''op-7''"
    by (simp_all add: sample_stack_state_def)
  show ?thesis
    using F [where s = "Some False" and code = None] F [where s = "Some True" and code = "Some 3"]
      sample_start sample_stream t o
    by (simp add: sample_stack_params_simps)
qed

section \<open>Error messages\<close>

text \<open>
  Claim C7. In both clients, an error message received while the receive loop is running
  (and before the deadline) ends the session at once in a failure, whatever frames would
  have followed: the exec client reports \<open>Terminal error:\<close> with the error text, followed
  by the context when there is one, the stack client \<open>Operation error:\<close> with the error
  text and the operation id; both report the output lines captured up to that point.
\<close>

theorem error_message_aborts_with_output:
  "(exec_loop dec p start (exec_connected p) pre = Running st \<and>
    \<not> timed_out now start (timeout p) \<longrightarrow>
      report_of (exec_execute dec p None start (pre @ (now, RecvMsg (MsgError err ctx)) # post)) =
        FailReport
          \<lparr>f_msg = ''Terminal error: '' @
                    (let error_msg = (case err of None \<Rightarrow> ''Unknown error'' | Some e \<Rightarrow> e);
                         context = (case ctx of None \<Rightarrow> [] | Some c \<Rightarrow> c)
                     in if context \<noteq> [] then error_msg @ '': '' @ context else error_msg),
           f_details = None, f_operation_id = None, f_output = Some (output_lines st)\<rparr>) \<and>
   (start_operation q stack_init reply = Returned st0 oid \<and>
    stream_loop q start (stream_connected q st0) pre' = Running st' \<and>
    \<not> timed_out now start (timeout q) \<longrightarrow>
      report_of (stack_execute q reply None start (pre' @ (now, RecvMsg (MsgOpError d)) # post')) =
        FailReport
          \<lparr>f_msg = ''Operation error: '' @ (case d of None \<Rightarrow> ''Unknown error'' | Some e \<Rightarrow> e),
           f_details = None, f_operation_id = operation_id st',
           f_output = Some (output_lines st')\<rparr>)"
proof (intro conjI impI)
  assume h: "exec_loop dec p start (exec_connected p) pre = Running st \<and>
    \<not> timed_out now start (timeout p)"
  then have "exec_loop dec p start (exec_connected p) (pre @ (now, RecvMsg (MsgError err ctx)) # post)
      = exec_loop dec p start st ((now, RecvMsg (MsgError err ctx)) # post)"
    by (simp add: exec_loop_append)
  then show "report_of (exec_execute dec p None start (pre @ (now, RecvMsg (MsgError err ctx)) # post)) =
        FailReport
          \<lparr>f_msg = ''Terminal error: '' @
                    (let error_msg = (case err of None \<Rightarrow> ''Unknown error'' | Some e \<Rightarrow> e);
                         context = (case ctx of None \<Rightarrow> [] | Some c \<Rightarrow> c)
                     in if context \<noteq> [] then error_msg @ '': '' @ context else error_msg),
           f_details = None, f_operation_id = None, f_output = Some (output_lines st)\<rparr>"
    using h
    by (simp add: exec_execute_def execute_command_def exec_iteration_msg exec_message_def
          exec_failure_def Let_def)
next
  assume h: "start_operation q stack_init reply = Returned st0 oid \<and>
    stream_loop q start (stream_connected q st0) pre' = Running st' \<and>
    \<not> timed_out now start (timeout q)"
  then have "stream_loop q start (stream_connected q st0) (pre' @ (now, RecvMsg (MsgOpError d)) # post')
      = stream_loop q start st' ((now, RecvMsg (MsgOpError d)) # post')"
    by (simp add: stream_loop_append)
  then show "report_of (stack_execute q reply None start (pre' @ (now, RecvMsg (MsgOpError d)) # post')) =
        FailReport
          \<lparr>f_msg = ''Operation error: '' @ (case d of None \<Rightarrow> ''Unknown error'' | Some e \<Rightarrow> e),
           f_details = None, f_operation_id = operation_id st',
           f_output = Some (output_lines st')\<rparr>"
    using h
    by (simp add: stack_execute_def stream_operation_def stream_iteration_msg stack_message_def
          stream_failure_def Let_def)
qed

theorem error_message_aborts_with_output_witness:
  "report_of (exec_execute sample_decoder sample_params None 0
      (sample_frames @ [(0.9, RecvMsg (MsgError (Some ''boom'') (Some ''container gone'')))])) =
     FailReport \<lparr>f_msg = ''Terminal error: boom: container gone'', f_details = None,
                 f_operation_id = None, f_output = Some [''total 8'' @ [CR, NL]]\<rparr> \<and>
   report_of (stack_execute sample_stack_params (HttpOk (Some ''op-7'')) None 0
      (sample_stack_frames @ [(4, RecvMsg (MsgOpError (Some ''pull failed'')))])) =
     FailReport \<lparr>f_msg = ''Operation error: pull failed'', f_details = None,
                 f_operation_id = Some ''op-7'', f_output = Some [''a'', ''[12:00] b'']\<rparr>"
proof -
  have t: "\<not> timed_out 0.9 0 (timeout sample_params)"
      "\<not> timed_out 4 0 (timeout sample_stack_params)"
    by (simp_all add: timed_out_def sample_params_simps sample_stack_params_simps)
  have o: "output_lines sample_state = [''total 8'' @ [CR, NL]]"
    "output_lines sample_stack_state = [''a'', ''[12:00] b'']"
    "operation_id sample_stack_state = Some ''op-7''"
    by (simp_all add: sample_state_def sample_stack_state_def)
  show ?thesis
    using error_message_aborts_with_output [where dec = sample_decoder and p = sample_params
        and start = 0 and pre = sample_frames and st = sample_state and now = "0.9"
        and err = "Some ''boom''" and ctx = "Some ''container gone''" and post = "[]"
        and q = sample_stack_params and reply = "HttpOk None" and pre' = "[]" and d = None
        and post' = "[]"]
      error_message_aborts_with_output [where dec = sample_decoder and p = sample_params
        and start = 0 and pre = "[]" and now = 4 and err = None and ctx = None and post = "[]"
        and q = sample_stack_params and reply = "HttpOk (Some ''op-7'')"
        and ?st0.0 = sample_started and oid = "''op-7''" and pre' = sample_stack_frames
        and st' = sample_stack_state and d = "Some ''pull failed''" and post' = "[]"]
      sample_session sample_start sample_stream t o
    by simp
qed

section \<open>Timeouts\<close>

lemma exec_loop_silent:
  assumes "\<forall>ev\<in>set frames. snd ev = RecvTimeout"
  shows "exec_loop dec p start st frames =
     (if \<exists>ev\<in>set frames. timed_out (fst ev) start (timeout p)
      then Failed (ws_closed st)
             \<lparr>f_msg = ''Command execution timed out after '' @ str_int (timeout p) @ '' seconds'',
              f_details = None, f_operation_id = None, f_output = Some (output_lines st)\<rparr>
      else Running st)"
  using assms
proof (induction frames)
  case Nil
  then show ?case by simp
next
  case (Cons ev evs)
  obtain now r where ev: "ev = (now, r)" by (cases ev)
  with Cons.prems have r: "r = RecvTimeout" by simp
  show ?case
  proof (cases "timed_out now start (timeout p)")
    case True
    with ev show ?thesis by (simp add: exec_iteration_def exec_failure_def)
  next
    case False
    with ev r have "exec_iteration dec p start st ev = Running st"
      by (simp add: exec_iteration_def)
    with Cons ev False show ?thesis by simp
  qed
qed

lemma stream_loop_silent:
  assumes "\<forall>ev\<in>set frames. snd ev = RecvTimeout"
  shows "stream_loop q start st frames =
     (if \<exists>ev\<in>set frames. timed_out (fst ev) start (timeout q)
      then Failed (ws_closed st)
             \<lparr>f_msg = ''Operation timed out after '' @ str_int (timeout q) @ '' seconds'',
              f_details = None, f_operation_id = operation_id st,
              f_output = Some (output_lines st)\<rparr>
      else Running st)"
  using assms
proof (induction frames)
  case Nil
  then show ?case by simp
next
  case (Cons ev evs)
  obtain now r where ev: "ev = (now, r)" by (cases ev)
  with Cons.prems have r: "r = RecvTimeout" by simp
  show ?case
  proof (cases "timed_out now start (timeout q)")
    case True
    with ev show ?thesis by (simp add: stream_iteration_def stream_failure_def)
  next
    case False
    with ev r have "stream_iteration q start st ev = Running st"
      by (simp add: stream_iteration_def)
    with Cons ev False show ?thesis by simp
  qed
qed

text \<open>
  Claim C8. In both clients, a receive that times out leaves the session running and
  unchanged, as long as the deadline check of that iteration has not fired; when the check
  fires (the elapsed time exceeds the configured timeout) the iteration fails with the
  timeout message and the output lines captured so far, whatever the receive would have
  returned. Hence against a peer that sends nothing, the session fails exactly when some
  iteration's clock reading is past the deadline, and then with the timeout message and the
  captured lines.
\<close>

theorem receive_timeout_not_fatal:
  "(\<not> timed_out now start (timeout p) \<longrightarrow>
      exec_iteration dec p start st (now, RecvTimeout) = Running st) \<and>
   (timed_out now start (timeout p) \<longrightarrow>
      exec_iteration dec p start st (now, r) =
        Failed (ws_closed st)
          \<lparr>f_msg = ''Command execution timed out after '' @ str_int (timeout p) @ '' seconds'',
           f_details = None, f_operation_id = None, f_output = Some (output_lines st)\<rparr>) \<and>
   ((\<forall>ev\<in>set frames. snd ev = RecvTimeout) \<longrightarrow>
      exec_loop dec p start st frames =
        (if \<exists>ev\<in>set frames. timed_out (fst ev) start (timeout p)
         then Failed (ws_closed st)
                \<lparr>f_msg = ''Command execution timed out after '' @ str_int (timeout p) @ '' seconds'',
                 f_details = None, f_operation_id = None, f_output = Some (output_lines st)\<rparr>
         else Running st)) \<and>
   (\<not> timed_out now start (timeout q) \<longrightarrow>
      stream_iteration q start st' (now, RecvTimeout) = Running st') \<and>
   (timed_out now start (timeout q) \<longrightarrow>
      stream_iteration q start st' (now, r') =
        Failed (ws_closed st')
          \<lparr>f_msg = ''Operation timed out after '' @ str_int (timeout q) @ '' seconds'',
           f_details = None, f_operation_id = operation_id st',
           f_output = Some (output_lines st')\<rparr>) \<and>
   ((\<forall>ev\<in>set frames'. snd ev = RecvTimeout) \<longrightarrow>
      stream_loop q start st' frames' =
        (if \<exists>ev\<in>set frames'. timed_out (fst ev) start (timeout q)
         then Failed (ws_closed st')
                \<lparr>f_msg = ''Operation timed out after '' @ str_int (timeout q) @ '' seconds'',
                 f_details = None, f_operation_id = operation_id st',
                 f_output = Some (output_lines st')\<rparr>
         else Running st'))"
  by (simp add: exec_iteration_def stream_iteration_def exec_failure_def stream_failure_def
        exec_loop_silent stream_loop_silent)

theorem receive_timeout_not_fatal_witness:
  "exec_loop sample_decoder sample_params 0 sample_state [(1, RecvTimeout), (29, RecvTimeout)] =
     Running sample_state \<and>
   exec_loop sample_decoder sample_params 0 sample_state [(1, RecvTimeout), (31, RecvTimeout)] =
     Failed (ws_closed sample_state)
       \<lparr>f_msg = ''Command execution timed out after 30 seconds'', f_details = None,
        f_operation_id = None, f_output = Some [''total 8'' @ [CR, NL]]\<rparr> \<and>
   stream_loop sample_stack_params 0 sample_stack_state [(30, RecvTimeout), (600, RecvTimeout)] =
     Running sample_stack_state \<and>
   stream_loop sample_stack_params 0 sample_stack_state [(300, RecvTimeout), (601, RecvTimeout)] =
     Failed (ws_closed sample_stack_state)
       \<lparr>f_msg = ''Operation timed out after 600 seconds'', f_details = None,
        f_operation_id = Some ''op-7'', f_output = Some [''a'', ''[12:00] b'']\<rparr>"
proof -
  note F = receive_timeout_not_fatal [where dec = sample_decoder and p = sample_params
      and start = 0 and st = sample_state and q = sample_stack_params and st' = sample_stack_state
      and now = 1 and r = RecvTimeout and r' = RecvTimeout]
  have o: "output_lines sample_state = [''total 8'' @ [CR, NL]]"
    "output_lines sample_stack_state = [''a'', ''[12:00] b'']"
    "operation_id sample_stack_state = Some ''op-7''"
    by (simp_all add: sample_state_def sample_stack_state_def)
  show ?thesis
    using F [where frames = "[(1, RecvTimeout), (29, RecvTimeout)]"
          and frames' = "[(30, RecvTimeout), (600, RecvTimeout)]"]
      F [where frames = "[(1, RecvTimeout), (31, RecvTimeout)]"
          and frames' = "[(300, RecvTimeout), (601, RecvTimeout)]"] o
    by (simp add: timed_out_def sample_params_simps sample_stack_params_simps str_int_30 str_int_600
          del: exec_loop.simps stream_loop.simps)
qed

section \<open>The API key\<close>

text \<open>
  With the responses of the transport fixed, what \<open>execute\<close> reports does not depend on
  the API key (\<open>exec_execute_key\<close>, \<open>stack_execute_key\<close>): the key goes into the request
  headers, and can reach the report only through text that the transport hands back.
\<close>

lemma report_of_forget_run: "report_of (forget_run r) = report_of r"
  by (cases r) simp_all

lemma forget_sent_eqD:
  "forget_sent st = forget_sent st' \<Longrightarrow> st' = st\<lparr>actions := actions st'\<rparr>"
  by (cases st, cases st') (simp add: forget_sent_def)

lemma exec_message_key:
  "forget_run (exec_message dec (p\<lparr>api_key := k\<rparr>) (st\<lparr>actions := a\<rparr>) m) =
   forget_run (exec_message dec p st m)"
  by (cases m)
     (auto simp add: exec_message_def forget_sent_def ws_closed_def exec_failure_def
        should_skip_output_def Let_def split: option.splits sum.splits)

lemma exec_iteration_key:
  "forget_run (exec_iteration dec (p\<lparr>api_key := k\<rparr>) start (st\<lparr>actions := a\<rparr>) ev) =
   forget_run (exec_iteration dec p start st ev)"
proof (cases ev)
  case (Pair now r)
  then show ?thesis
    by (cases r)
       (simp_all add: exec_iteration_def exec_message_key forget_sent_def ws_closed_def
          exec_failure_def)
qed

lemma exec_loop_key:
  "forget_run (exec_loop dec (p\<lparr>api_key := k\<rparr>) start (st\<lparr>actions := a\<rparr>) frames) =
   forget_run (exec_loop dec p start st frames)"
proof (induction frames arbitrary: st a)
  case Nil
  show ?case by (simp add: forget_sent_def)
next
  case (Cons ev evs)
  note step = exec_iteration_key [of dec k p start a st ev]
  show ?case
  proof (cases "exec_iteration dec p start st ev")
    case (Running st1)
    with step obtain st2 where r2:
        "exec_iteration dec (p\<lparr>api_key := k\<rparr>) start (st\<lparr>actions := a\<rparr>) ev = Running st2"
        "forget_sent st2 = forget_sent st1"
      by (cases "exec_iteration dec (p\<lparr>api_key := k\<rparr>) start (st\<lparr>actions := a\<rparr>) ev") auto
    from forget_sent_eqD [OF r2(2) [symmetric]] have "st2 = st1\<lparr>actions := actions st2\<rparr>" .
    then have "exec_loop dec (p\<lparr>api_key := k\<rparr>) start st2 evs =
               exec_loop dec (p\<lparr>api_key := k\<rparr>) start (st1\<lparr>actions := actions st2\<rparr>) evs"
      by simp
    with Cons.IH [where st = st1 and a = "actions st2"] Running r2(1) show ?thesis by simp
  next
    case (Returned st1 u)
    with step show ?thesis
      by (cases "exec_iteration dec (p\<lparr>api_key := k\<rparr>) start (st\<lparr>actions := a\<rparr>) ev") auto
  next
    case (Failed st1 f)
    with step show ?thesis
      by (cases "exec_iteration dec (p\<lparr>api_key := k\<rparr>) start (st\<lparr>actions := a\<rparr>) ev") auto
  qed
qed

lemma exec_result_of_forget: "exec_result_of (forget_sent st) = exec_result_of st"
  by (simp add: exec_result_of_def forget_sent_def)

lemma exec_result_of_eq:
  "forget_sent st = forget_sent st' \<Longrightarrow> exec_result_of st = exec_result_of st'"
  by (metis exec_result_of_forget)

lemma exec_execute_key:
  "report_of (exec_execute dec (p\<lparr>api_key := k\<rparr>) conn start frames) =
   report_of (exec_execute dec p conn start frames)"
proof (cases conn)
  case (Some e)
  then show ?thesis by (simp add: exec_execute_def execute_command_def)
next
  case None
  have c: "exec_connected (p\<lparr>api_key := k\<rparr>) =
           (exec_connected p)\<lparr>actions := actions (exec_connected (p\<lparr>api_key := k\<rparr>))\<rparr>"
    by (simp add: exec_connected_def)
  have "forget_run (exec_loop dec (p\<lparr>api_key := k\<rparr>) start (exec_connected (p\<lparr>api_key := k\<rparr>)) frames) =
        forget_run (exec_loop dec p start (exec_connected p) frames)"
    by (subst c) (rule exec_loop_key)
  then show ?thesis using None
    by (cases "exec_loop dec (p\<lparr>api_key := k\<rparr>) start (exec_connected (p\<lparr>api_key := k\<rparr>)) frames";
        cases "exec_loop dec p start (exec_connected p) frames")
       (auto simp add: exec_execute_def execute_command_def dest: exec_result_of_eq)
qed

lemma stack_message_key:
  "forget_run (stack_message (st\<lparr>actions := a\<rparr>) m) = forget_run (stack_message st m)"
  by (cases m)
     (auto simp add: stack_message_def append_data_def forget_sent_def ws_closed_def
        stream_failure_def Let_def split: option.splits)

lemma stream_iteration_key:
  "forget_run (stream_iteration (q\<lparr>api_key := k\<rparr>) start (st\<lparr>actions := a\<rparr>) ev) =
   forget_run (stream_iteration q start st ev)"
proof (cases ev)
  case (Pair now r)
  then show ?thesis
    by (cases r)
       (simp_all add: stream_iteration_def stack_message_key forget_sent_def ws_closed_def
          stream_failure_def ws_connect_failure_def)
qed

lemma stream_loop_key:
  "forget_run (stream_loop (q\<lparr>api_key := k\<rparr>) start (st\<lparr>actions := a\<rparr>) frames) =
   forget_run (stream_loop q start st frames)"
proof (induction frames arbitrary: st a)
  case Nil
  show ?case by (simp add: forget_sent_def)
next
  case (Cons ev evs)
  note step = stream_iteration_key [of k q start a st ev]
  show ?case
  proof (cases "stream_iteration q start st ev")
    case (Running st1)
    with step obtain st2 where r2:
        "stream_iteration (q\<lparr>api_key := k\<rparr>) start (st\<lparr>actions := a\<rparr>) ev = Running st2"
        "forget_sent st2 = forget_sent st1"
      by (cases "stream_iteration (q\<lparr>api_key := k\<rparr>) start (st\<lparr>actions := a\<rparr>) ev") auto
    from forget_sent_eqD [OF r2(2) [symmetric]] have "st2 = st1\<lparr>actions := actions st2\<rparr>" .
    then have "stream_loop (q\<lparr>api_key := k\<rparr>) start st2 evs =
               stream_loop (q\<lparr>api_key := k\<rparr>) start (st1\<lparr>actions := actions st2\<rparr>) evs"
      by simp
    with Cons.IH [where st = st1 and a = "actions st2"] Running r2(1) show ?thesis by simp
  next
    case (Returned st1 u)
    with step show ?thesis
      by (cases "stream_iteration (q\<lparr>api_key := k\<rparr>) start (st\<lparr>actions := a\<rparr>) ev") auto
  next
    case (Failed st1 f)
    with step show ?thesis
      by (cases "stream_iteration (q\<lparr>api_key := k\<rparr>) start (st\<lparr>actions := a\<rparr>) ev") auto
  qed
qed

lemma stream_operation_key:
  "forget_run (stream_operation (q\<lparr>api_key := k\<rparr>) (st\<lparr>actions := a\<rparr>) conn start frames) =
   forget_run (stream_operation q st conn start frames)"
proof (cases conn)
  case (Some e)
  then show ?thesis
    by (simp add: stream_operation_def stream_connected_def forget_sent_def ws_connect_failure_def)
next
  case None
  have c: "stream_connected (q\<lparr>api_key := k\<rparr>) (st\<lparr>actions := a\<rparr>) =
           (stream_connected q st)\<lparr>actions := a @ [WsConnect [auth_header k]]\<rparr>"
    by (simp add: stream_connected_def)
  show ?thesis using None by (simp add: stream_operation_def c stream_loop_key)
qed

lemma start_operation_key:
  "forget_run (start_operation (q\<lparr>api_key := k\<rparr>) st reply) = forget_run (start_operation q st reply)"
  by (cases reply)
     (auto simp add: start_operation_def forget_sent_def Let_def split: option.splits)

lemma stack_result_of_key:
  "forget_sent st = forget_sent st' \<Longrightarrow>
   stack_result_of (q\<lparr>api_key := k\<rparr>) st = stack_result_of q st'"
  by (cases st, cases st') (simp add: forget_sent_def stack_result_of_def)

lemma forget_run_cases:
  "forget_run r = forget_run r' \<Longrightarrow>
     (\<exists>s s'. r = Running s \<and> r' = Running s' \<and> forget_sent s = forget_sent s') \<or>
     (\<exists>s s' v. r = Returned s v \<and> r' = Returned s' v \<and> forget_sent s = forget_sent s') \<or>
     (\<exists>s s' f. r = Failed s f \<and> r' = Failed s' f \<and> forget_sent s = forget_sent s')"
  by (cases r; cases r') auto

lemma stack_execute_key:
  "report_of (stack_execute (q\<lparr>api_key := k\<rparr>) reply conn start frames) =
   report_of (stack_execute q reply conn start frames)"
proof -
  from forget_run_cases [OF start_operation_key [of k q stack_init reply]]
  consider
    (run) s s' where "start_operation (q\<lparr>api_key := k\<rparr>) stack_init reply = Running s"
        "start_operation q stack_init reply = Running s'"
  | (ret) s s' v where "start_operation (q\<lparr>api_key := k\<rparr>) stack_init reply = Returned s v"
        "start_operation q stack_init reply = Returned s' v" "forget_sent s = forget_sent s'"
  | (fail) s s' f where "start_operation (q\<lparr>api_key := k\<rparr>) stack_init reply = Failed s f"
        "start_operation q stack_init reply = Failed s' f"
    by blast
  then show ?thesis
  proof cases
    case run
    then show ?thesis by (simp add: stack_execute_def)
  next
    case fail
    then show ?thesis by (simp add: stack_execute_def)
  next
    case ret
    from forget_sent_eqD [OF ret(3) [symmetric]] have s: "s = s'\<lparr>actions := actions s\<rparr>" .
    have "forget_run (stream_operation (q\<lparr>api_key := k\<rparr>) s conn start frames) =
          forget_run (stream_operation q s' conn start frames)"
      by (subst s) (rule stream_operation_key)
    from forget_run_cases [OF this] ret(1,2) show ?thesis
      by (auto simp add: stack_execute_def dest: stack_result_of_key)
  qed
qed

text \<open>
  Claim C9 (the API key is never part of the data a client returns or fails with) does not
  hold of the stack client. With an API key that ends in a newline, as a key read from a
  file does, \<open>urlopen\<close> refuses the \<open>Authorization\<close> header before anything is sent, and
  \<open>start_operation\<close> reports the text of that exception: the failure's \<open>msg\<close> is
  \<^verbatim>\<open>Unexpected error starting operation: Invalid header value b'Bearer brth_AAA\n'\<close>.
  It contains the key, and it differs with the key. Both modules declare the key
  \<open>no_log\<close>.
\<close>

theorem api_key_reported_in_failure:
  "report_of (stack_run (p\<lparr>api_key := ''brth_AAA'' @ [NL]\<rparr>) served conn start frames) =
     FailReport
       \<lparr>f_msg = ''Unexpected error starting operation: Invalid header value b'' @ [SQUOTE] @
                 ''Bearer brth_AAA'' @ [BACKSLASH] @ ''n'' @ [SQUOTE],
        f_details = None, f_operation_id = None, f_output = None\<rparr> \<and>
   sublist ''brth_AAA''
     (case report_of (stack_run (p\<lparr>api_key := ''brth_AAA'' @ [NL]\<rparr>) served conn start frames) of
        FailReport f \<Rightarrow> f_msg f | _ \<Rightarrow> []) \<and>
   report_of (stack_run (p\<lparr>api_key := ''brth_AAA'' @ [NL]\<rparr>) served conn start frames) \<noteq>
   report_of (stack_run (p\<lparr>api_key := ''brth_BBB'' @ [NL]\<rparr>) served conn start frames)"
proof -
  have a: "report_of (stack_run (p\<lparr>api_key := ''brth_AAA'' @ [NL]\<rparr>) served conn start frames) =
     FailReport
       \<lparr>f_msg = ''Unexpected error starting operation: Invalid header value b'' @ [SQUOTE] @
                 ''Bearer brth_AAA'' @ [BACKSLASH] @ ''n'' @ [SQUOTE],
        f_details = None, f_operation_id = None, f_output = None\<rparr>"
    by (simp add: stack_run_def stack_execute_def start_operation_def fail_msg_def
          urlopen_def bytes_repr_def bytes_repr_char_def Let_def)
  have b: "report_of (stack_run (p\<lparr>api_key := ''brth_BBB'' @ [NL]\<rparr>) served conn start frames) =
     FailReport
       \<lparr>f_msg = ''Unexpected error starting operation: Invalid header value b'' @ [SQUOTE] @
                 ''Bearer brth_BBB'' @ [BACKSLASH] @ ''n'' @ [SQUOTE],
        f_details = None, f_operation_id = None, f_output = None\<rparr>"
    by (simp add: stack_run_def stack_execute_def start_operation_def fail_msg_def
          urlopen_def bytes_repr_def bytes_repr_char_def Let_def)
  have e: "''Unexpected error starting operation: Invalid header value b'' @ [SQUOTE] @
             ''Bearer brth_AAA'' @ [BACKSLASH] @ ''n'' @ [SQUOTE] =
           (''Unexpected error starting operation: Invalid header value b'' @ [SQUOTE] @ ''Bearer '')
             @ ''brth_AAA'' @ ([BACKSLASH] @ ''n'' @ [SQUOTE])"
    by simp
  have c: "sublist ''brth_AAA'' (''Unexpected error starting operation: Invalid header value b'' @ [SQUOTE] @
             ''Bearer brth_AAA'' @ [BACKSLASH] @ ''n'' @ [SQUOTE])"
    by (subst e) (rule sublist_appendI)
  show ?thesis unfolding a b using c by simp
qed

section \<open>Output before the session is ready\<close>

lemma exec_iteration_not_ready:
  assumes "\<not> session_ready st" "output_lines st = []" "\<forall>sid. snd ev \<noteq> RecvMsg (MsgSuccess sid)"
  shows "\<not> session_ready (run_state (exec_iteration dec p start st ev)) \<and>
         output_lines (run_state (exec_iteration dec p start st ev)) = []"
proof (cases ev)
  case (Pair now r)
  show ?thesis
  proof (cases r)
    case (RecvMsg m)
    with assms Pair show ?thesis
      by (cases m) (auto simp add: exec_iteration_def exec_message_def ws_closed_def Let_def)
  qed (use assms Pair in \<open>auto simp add: exec_iteration_def ws_closed_def\<close>)
qed

lemma exec_loop_not_ready:
  assumes "\<forall>ev\<in>set frames. \<forall>sid. snd ev \<noteq> RecvMsg (MsgSuccess sid)"
    and "\<not> session_ready st" "output_lines st = []"
  shows "output_lines (run_state (exec_loop dec p start st frames)) = []"
  using assms
proof (induction frames arbitrary: st)
  case Nil
  then show ?case by simp
next
  case (Cons ev evs)
  have ev: "\<forall>sid. snd ev \<noteq> RecvMsg (MsgSuccess sid)" using Cons.prems(1) by simp
  note step = exec_iteration_not_ready [OF Cons.prems(2) Cons.prems(3) ev, of dec p start]
  show ?case
  proof (cases "exec_iteration dec p start st ev")
    case (Running st')
    with step have "\<not> session_ready st'" "output_lines st' = []" by simp_all
    with Cons.IH [of st'] Cons.prems(1) Running show ?thesis by simp
  next
    case (Returned st' u)
    with step show ?thesis by simp
  next
    case (Failed st' f)
    with step show ?thesis by simp
  qed
qed

text \<open>
  Claim C10. In the exec client a \<open>terminal_output\<close> message that arrives before the session
  is ready is discarded whatever it carries, and a session that receives no \<open>success\<close>
  message captures no output at all.
\<close>

theorem exec_output_before_success_discarded:
  "(\<not> session_ready st \<longrightarrow> exec_message dec p st (MsgTerminalOutput out) = Running st) \<and>
   ((\<forall>ev\<in>set frames. \<forall>sid. snd ev \<noteq> RecvMsg (MsgSuccess sid)) \<longrightarrow>
      output_lines (run_state (exec_execute dec p conn start frames)) = [])"
proof (intro conjI impI)
  show "exec_message dec p st (MsgTerminalOutput out) = Running st" if "\<not> session_ready st"
    using that by (simp add: exec_message_def)
  show "output_lines (run_state (exec_execute dec p conn start frames)) = []"
    if h: "\<forall>ev\<in>set frames. \<forall>sid. snd ev \<noteq> RecvMsg (MsgSuccess sid)"
  proof (cases conn)
    case (Some e)
    then show ?thesis by (simp add: exec_execute_def execute_command_def exec_init_def)
  next
    case None
    have "output_lines (run_state (exec_loop dec p start (exec_connected p) frames)) = []"
      by (rule exec_loop_not_ready [OF h]) (simp_all add: exec_connected_def exec_init_def)
    with None show ?thesis
      by (cases "exec_loop dec p start (exec_connected p) frames")
         (simp_all add: exec_execute_def execute_command_def)
  qed
qed

theorem exec_output_before_success_discarded_witness:
  "exec_message sample_decoder sample_params (exec_connected sample_params)
      (MsgTerminalOutput (Some ''dG90YWwgOA0K'')) = Running (exec_connected sample_params) \<and>
   output_lines (run_state (exec_execute sample_decoder sample_params None 0
      [(0.1, RecvMsg (MsgTerminalOutput (Some ''dG90YWwgOA0K''))),
       (0.2, RecvMsg (MsgTerminalClose (Some 0)))])) = []"
proof -
  have a: "\<not> session_ready (exec_connected sample_params)"
    by (simp add: exec_connected_def exec_init_def)
  show ?thesis
    using exec_output_before_success_discarded [where st = "exec_connected sample_params"
        and dec = sample_decoder and p = sample_params and out = "Some ''dG90YWwgOA0K''"
        and conn = None and start = 0
        and frames = "[(0.1, RecvMsg (MsgTerminalOutput (Some ''dG90YWwgOA0K''))),
                       (0.2, RecvMsg (MsgTerminalClose (Some 0)))]"] a
    by simp
qed

end
